theory Spec2Isabelle
  imports Complex_Main
begin

section \<open>Python floats\<close>

text \<open>
  A finite Python float (IEEE 754 binary64) is modelled by the real number it denotes.
  Every arithmetic operation of the source on floats is the exact operation followed by
  \<open>fl\<close>, rounding to the nearest float with 53 significant bits, ties to the even
  significand, with the gradual underflow of binary64 below \<open>2 ^ - 1022\<close>.
  Infinities, NaN and the sign of zero are not modelled, and a result beyond the largest
  float stays finite instead of becoming infinite.
\<close>

function bitlen :: "int \<Rightarrow> int" where
  "bitlen n = (if n \<le> 0 then 0 else 1 + bitlen (n div 2))"
  by pat_completeness auto
termination
  by (relation "measure nat") auto

declare bitlen.simps [simp del]

definition pow2 :: "int \<Rightarrow> real" where
  "pow2 e = (if 0 \<le> e then 2 ^ nat e else 1 / 2 ^ nat (- e))"

text \<open>For \<open>x > 0\<close>, \<open>ilog2 x\<close> is the exponent \<open>e\<close> with \<open>2 ^ e \<le> x < 2 ^ (e + 1)\<close>.\<close>

definition ilog2 :: "real \<Rightarrow> int" where
  "ilog2 x = (if 1 \<le> x then bitlen \<lfloor>x\<rfloor> - 1 else - bitlen (\<lceil>1 / x\<rceil> - 1))"

definition round_half_even :: "real \<Rightarrow> int" where
  "round_half_even y =
     (let f = \<lfloor>y\<rfloor>; d = y - of_int f
      in if d < 1 / 2 then f else if 1 / 2 < d then f + 1
         else if even f then f else f + 1)"

definition fl :: "real \<Rightarrow> real" where
  "fl x = (if x = 0 then 0
           else let u = pow2 (max (ilog2 \<bar>x\<bar>) (- 1022) - 52)
                in of_int (round_half_even (x / u)) * u)"

definition fadd :: "real \<Rightarrow> real \<Rightarrow> real" where "fadd x y = fl (x + y)"
definition fsub :: "real \<Rightarrow> real \<Rightarrow> real" where "fsub x y = fl (x - y)"
definition fmul :: "real \<Rightarrow> real \<Rightarrow> real" where "fmul x y = fl (x * y)"
definition fdiv :: "real \<Rightarrow> real \<Rightarrow> real" where "fdiv x y = fl (x / y)"

text \<open>\<open>sum(xs)\<close> on a list of floats: the additions run from the left, starting at 0.\<close>

definition py_sum :: "real list \<Rightarrow> real" where
  "py_sum xs = foldl fadd 0 xs"

text \<open>
  \<open>a % b\<close> on floats with \<open>b > 0\<close>: the C \<open>fmod\<close>, which is exact, and then one
  addition of \<open>b\<close> when the remainder is negative.
\<close>

definition py_trunc :: "real \<Rightarrow> int" where
  "py_trunc x = (if 0 \<le> x then \<lfloor>x\<rfloor> else \<lceil>x\<rceil>)"

definition py_fmod :: "real \<Rightarrow> real \<Rightarrow> real" where
  "py_fmod a b = (let m = a - b * of_int (py_trunc (a / b))
                  in if m < 0 then fadd m b else m)"

text \<open>\<open>len(str(k))\<close> for an integer \<open>k\<close>: its decimal digits and the minus sign.\<close>

function digits :: "int \<Rightarrow> nat" where
  "digits n = (if n < 10 then 1 else 1 + digits (n div 10))"
  by pat_completeness auto
termination
  by (relation "measure nat") auto

declare digits.simps [simp del]

definition len_str_int :: "int \<Rightarrow> nat" where
  "len_str_int k = (if k < 0 then 1 + digits (- k) else digits k)"

section \<open>Python values\<close>

datatype error = TypeError | ValueError | OverflowError

text \<open>
  The value under the key \<open>total_amount\<close>: the key may be missing, and the value may
  be \<open>None\<close>, a number or a string.
\<close>

datatype pyval = Absent | PyNone | Num real | Str string

fun truthy :: "pyval \<Rightarrow> bool" where
  "truthy Absent = False"
| "truthy PyNone = False"
| "truthy (Num r) = (r \<noteq> 0)"
| "truthy (Str s) = (s \<noteq> [])"

definition truthy_str :: "string option \<Rightarrow> bool" where
  "truthy_str v = (case v of None \<Rightarrow> False | Some s \<Rightarrow> s \<noteq> [])"

text \<open>
  \<open>float(v)\<close>. A number is an \<open>int\<close> or a finite float. \<open>float\<close> rounds an
  \<open>int\<close> to the nearest float and raises \<open>OverflowError\<close> when the rounded value
  is beyond the largest float, that is from \<open>2 ^ 1024\<close> on; a finite float is below
  that bound and is returned as it is. How Python reads a string as a float is not part
  of the repository: it is the parameter \<open>pf\<close>, which returns \<open>None\<close> where
  \<open>float\<close> raises \<open>ValueError\<close>, and the float that is read otherwise; a text
  that reads as an infinity or as NaN is outside the model. \<open>get0\<close> is
  \<open>dict.get(key, 0)\<close>.
\<close>

type_synonym float_parser = "string \<Rightarrow> real option"

definition to_float :: "real \<Rightarrow> error + real" where
  "to_float r = (if 2 ^ 1024 \<le> \<bar>fl r\<bar> then Inl OverflowError else Inr (fl r))"

fun py_float :: "float_parser \<Rightarrow> pyval \<Rightarrow> error + real" where
  "py_float pf Absent = Inl TypeError"
| "py_float pf PyNone = Inl TypeError"
| "py_float pf (Num r) = to_float r"
| "py_float pf (Str s) = (case pf s of None \<Rightarrow> Inl ValueError | Some v \<Rightarrow> Inr v)"

fun get0 :: "pyval \<Rightarrow> pyval" where
  "get0 Absent = Num 0"
| "get0 v = v"

section \<open>Strings and the GST number pattern\<close>

text \<open>
  Where only the characters of a Python string are compared, the string is a
  \<^typ>\<open>string\<close>. The two functions that test a GST number have each their own copy
  of the pattern; the first is that of \<open>validate_gst_number\<close>.
\<close>

definition is_digit :: "char \<Rightarrow> bool" where
  "is_digit c \<longleftrightarrow> (48::nat) \<le> of_char c \<and> of_char c \<le> (57::nat)"

definition is_upper :: "char \<Rightarrow> bool" where
  "is_upper c \<longleftrightarrow> (65::nat) \<le> of_char c \<and> of_char c \<le> (90::nat)"

text \<open>\<open>s.replace(',', '')\<close>.\<close>

definition remove_char :: "char \<Rightarrow> string \<Rightarrow> string" where
  "remove_char x s = filter (\<lambda>c. c \<noteq> x) s"

text \<open>
  The character classes of the pattern
  \<^verbatim>\<open>^[0-9]{2}[A-Z]{5}[0-9]{4}[A-Z]{1}[1-9A-Z]{1}[Z]{1}[0-9A-Z]{1}$\<close>,
  one per position.
\<close>

definition cls_19AZ :: "char \<Rightarrow> bool" where
  "cls_19AZ c \<longleftrightarrow> ((49::nat) \<le> of_char c \<and> of_char c \<le> (57::nat)) \<or> is_upper c"

definition cls_09AZ :: "char \<Rightarrow> bool" where
  "cls_09AZ c \<longleftrightarrow> is_digit c \<or> is_upper c"

definition cls_Z :: "char \<Rightarrow> bool" where
  "cls_Z c \<longleftrightarrow> c = CHR ''Z''"

definition gst_pattern :: "(char \<Rightarrow> bool) list" where
  "gst_pattern =
     [is_digit, is_digit,
      is_upper, is_upper, is_upper, is_upper, is_upper,
      is_digit, is_digit, is_digit, is_digit,
      is_upper, cls_19AZ, cls_Z, cls_09AZ]"

text \<open>
  \<open>re.match\<close> of an anchored pattern made of single-character classes. Python's
  \<open>$\<close> also matches just before one trailing newline.
\<close>

definition matches_classes :: "('a \<Rightarrow> bool) list \<Rightarrow> 'a list \<Rightarrow> bool" where
  "matches_classes ps s = list_all2 (\<lambda>p c. p c) ps s"

definition re_match :: "(char \<Rightarrow> bool) list \<Rightarrow> string \<Rightarrow> bool" where
  "re_match ps s \<longleftrightarrow>
     matches_classes ps s \<or>
     (s \<noteq> [] \<and> last s = CHR 0x0A \<and> matches_classes ps (butlast s))"

text \<open>\<open>validate_gst_number\<close> (fintel_api_fixed.py): only the \<open>valid\<close> flag is read.\<close>

definition validate_gst_number :: "string \<Rightarrow> bool" where
  "validate_gst_number gst_number = re_match gst_pattern gst_number"

text \<open>
  \<open>float(str(v).replace(',', ''))\<close>; \<open>str(None)\<close> is not a number. The text of an
  \<open>int\<close> beyond the largest float reads as an infinity, which the model does not have;
  the value stays finite here.
\<close>

fun float_of_str :: "float_parser \<Rightarrow> pyval \<Rightarrow> error + real" where
  "float_of_str pf (Num r) = Inr (fl r)"
| "float_of_str pf (Str s) =
     (case pf (remove_char CHR '','' s) of None \<Rightarrow> Inl ValueError | Some v \<Rightarrow> Inr v)"
| "float_of_str pf v = Inl ValueError"

subsection \<open>Upper-casing and the length of a string\<close>

text \<open>
  \<open>validate_gst_format\<close> upper-cases its argument and then tests its length. The
  length of a Python string counts Unicode code points, and \<open>str.upper\<close> replaces
  every code point by its uppercase mapping, which has one, two or three code points:
  the string may get longer. For this function a string is therefore the list of its
  code points. On ASCII, \<open>str.upper\<close> moves the letters a-z to A-Z and keeps every
  other code point. Beyond ASCII the mapping is a table of the Unicode standard, which
  is not part of the repository: it is the parameter \<open>uc\<close>.
\<close>

type_synonym ustring = "nat list"

type_synonym upper_table = "nat \<Rightarrow> nat list"

definition code_points :: "string \<Rightarrow> ustring" where
  "code_points s = map of_char s"

definition upper_cp :: "upper_table \<Rightarrow> nat \<Rightarrow> ustring" where
  "upper_cp uc c =
     (if c < 128 then [if 97 \<le> c \<and> c \<le> 122 then c - 32 else c] else uc c)"

definition py_upper :: "upper_table \<Rightarrow> ustring \<Rightarrow> ustring" where
  "py_upper uc s = concat (map (upper_cp uc) s)"

text \<open>\<open>s.replace(" ", "")\<close>.\<close>

definition remove_spaces :: "ustring \<Rightarrow> ustring" where
  "remove_spaces s = filter (\<lambda>c. c \<noteq> 32) s"

text \<open>
  The pattern of \<open>validate_gst_format\<close>, the same text as above. Its classes hold
  ASCII digits and uppercase letters only.
\<close>

definition cp_digit :: "nat \<Rightarrow> bool" where
  "cp_digit c \<longleftrightarrow> 48 \<le> c \<and> c \<le> 57"

definition cp_upper :: "nat \<Rightarrow> bool" where
  "cp_upper c \<longleftrightarrow> 65 \<le> c \<and> c \<le> 90"

definition cp_19AZ :: "nat \<Rightarrow> bool" where
  "cp_19AZ c \<longleftrightarrow> (49 \<le> c \<and> c \<le> 57) \<or> cp_upper c"

definition cp_09AZ :: "nat \<Rightarrow> bool" where
  "cp_09AZ c \<longleftrightarrow> cp_digit c \<or> cp_upper c"

definition cp_Z :: "nat \<Rightarrow> bool" where
  "cp_Z c \<longleftrightarrow> c = 90"

definition gst_format_pattern :: "(nat \<Rightarrow> bool) list" where
  "gst_format_pattern =
     [cp_digit, cp_digit,
      cp_upper, cp_upper, cp_upper, cp_upper, cp_upper,
      cp_digit, cp_digit, cp_digit, cp_digit,
      cp_upper, cp_19AZ, cp_Z, cp_09AZ]"

definition re_match_cp :: "(nat \<Rightarrow> bool) list \<Rightarrow> ustring \<Rightarrow> bool" where
  "re_match_cp ps s \<longleftrightarrow>
     matches_classes ps s \<or>
     (s \<noteq> [] \<and> last s = 10 \<and> matches_classes ps (butlast s))"

text \<open>\<open>GSTVerifier.validate_gst_format\<close> (gst_verifier.py).\<close>

definition validate_gst_format :: "upper_table \<Rightarrow> ustring \<Rightarrow> bool" where
  "validate_gst_format uc gst_number =
     (if gst_number = [] then False
      else let g = py_upper uc (remove_spaces gst_number) in
        if length g \<noteq> 15 then False
        else re_match_cp gst_format_pattern g)"

section \<open>The invoice data\<close>

text \<open>
  The dictionaries of the source are records. A key that the modelled functions never
  read is left out. A string-valued key that may be missing or \<open>None\<close> is a
  \<^typ>\<open>string option\<close>; a missing list is the empty list.
\<close>

record gst_verification =
  success :: bool
  is_active :: bool

record hsn_verification =
  is_valid :: bool
  code :: "string option"

record rate_mismatch =
  item :: string
  hsn_code :: string
  actual_rate :: real
  extracted_rate :: real

record enhanced_data =
  hsn_sac_codes :: "string list"
  item_descriptions :: "string list"
  quantities :: "real list"

text \<open>
  \<open>invoice_data\<close> with the keys that \<open>upload_invoice_complete\<close> adds before it
  stores the invoice. \<open>hsn_sac_line_items_verification\<close> holds the \<open>rate_mismatches\<close>
  list of the verification, and \<open>None\<close> when there were no line items.
\<close>

record invoice_data =
  invoice_number :: "string option"
  vendor_name :: "string option"
  gst_numbers :: "string list"
  total_amount :: pyval
  invoice_date :: "string option"
  ocr_confidence :: real
  raw_text :: string
  gst_missing :: bool
  gst_verification :: "gst_verification list"
  hsn_sac_verification :: "hsn_verification list"
  hsn_sac_line_items_verification :: "rate_mismatch list option"
  hsn_sac_codes :: "string list"

record ml_result =
  is_anomaly :: bool
  confidence :: real

section \<open>Compliance scoring (fintel\_api\_fixed.py)\<close>

definition HSN_SAC_DATABASE :: "(string \<times> string \<times> real) list" where
  "HSN_SAC_DATABASE =
     [(''8517'', ''Telephone sets, mobile phones'', 12),
      (''8471'', ''Computers and computer peripherals'', 18),
      (''9403'', ''Office furniture'', 12),
      (''7326'', ''Articles of iron or steel'', 18),
      (''3926'', ''Articles of plastics'', 18),
      (''8443'', ''Printing machinery'', 18),
      (''4901'', ''Printed books, brochures'', 12),
      (''9983'', ''Professional services'', 18)]"

record arithmetic_check =
  overall_accurate :: bool
  base_amount :: "real option"
  expected_gst :: "real option"
  expected_total :: "real option"

text \<open>
  \<open>check_arithmetic_accuracy\<close>. The literals \<open>1.18\<close> and \<open>0.18\<close> are the floats
  nearest to them. An exception of the conversion is caught, and the answer is that of a
  missing total.
\<close>

definition check_arithmetic_accuracy :: "float_parser \<Rightarrow> invoice_data \<Rightarrow> arithmetic_check" where
  "check_arithmetic_accuracy pf idata =
     (let failed = \<lparr>overall_accurate = False, base_amount = None,
                     expected_gst = None, expected_total = None\<rparr>
      in if truthy (total_amount idata) then
           (case float_of_str pf (total_amount idata) of
              Inl e \<Rightarrow> failed
            | Inr amount \<Rightarrow>
                (let base = fdiv amount (fl (118 / 100));
                     gst = fmul base (fl (18 / 100));
                     total = fadd base gst
                 in \<lparr>overall_accurate = (\<bar>fsub amount total\<bar> < 1),
                     base_amount = Some base, expected_gst = Some gst,
                     expected_total = Some total\<rparr>))
         else failed)"

record price_entry =
  billed_price :: real
  market_avg :: real
  variance_percent :: real
  is_outlier :: bool

text \<open>
  \<open>analyze_market_prices\<close>: one entry for each item description, all of them computed
  from the total of the invoice. The conversion of the total is not guarded here: its
  exception leaves the function.
\<close>

definition price_of :: "real \<Rightarrow> price_entry" where
  "price_of amount =
     (let avg = 25000;
          variance = fmul (fdiv (fsub amount avg) avg) 100
      in \<lparr>billed_price = amount, market_avg = avg, variance_percent = variance,
          is_outlier = (50 < \<bar>variance\<bar>)\<rparr>)"

definition analyze_market_prices ::
  "float_parser \<Rightarrow> enhanced_data \<Rightarrow> invoice_data \<Rightarrow> error + (string \<times> price_entry) list" where
  "analyze_market_prices pf enh idata =
     (let items = item_descriptions enh
      in if items \<noteq> [] \<and> truthy (total_amount idata) then
           (case float_of_str pf (total_amount idata) of
              Inl e \<Rightarrow> Inl e
            | Inr amount \<Rightarrow> Inr (map (\<lambda>i. (i, price_of amount)) items))
         else Inr [])"

text \<open>
  The loop over the HSN codes stops at the first code of the table: it yields that code
  with its rate, and one point.
\<close>

fun hsn_validation :: "string list \<Rightarrow> (string \<times> real) option" where
  "hsn_validation [] = None"
| "hsn_validation (c # cs) =
     (case map_of HSN_SAC_DATABASE c of
        Some (d, r) \<Rightarrow> Some (c, r)
      | None \<Rightarrow> hsn_validation cs)"

record compliance_results =
  compliance_score :: real
  checks_passed :: real
  total_checks :: real
  compliance_status :: string
  risk_level :: string
  risk_score :: real
  gst_validations :: "bool list"
  hsn_validations :: "(string \<times> real) list"
  duplicate_check :: "string list"
  arithmetic_result :: arithmetic_check
  price_analysis :: "(string \<times> price_entry) list"
  anomalies_detected :: "string list"

text \<open>
  \<open>process_complete_compliance\<close>. \<open>p1\<close> to \<open>p8\<close> are the successive values of
  \<open>checks_passed\<close>; \<open>bump c d\<close> is \<open>if c: checks_passed += d\<close>. The function
  raises where \<open>analyze_market_prices\<close> does.
\<close>

definition bump :: "bool \<Rightarrow> real \<Rightarrow> real \<Rightarrow> real" where
  "bump c d p = (if c then fadd p d else p)"

definition basic_fields :: "invoice_data \<Rightarrow> bool list" where
  "basic_fields idata =
     [truthy_str (invoice_number idata), truthy (total_amount idata),
      truthy_str (invoice_date idata), truthy_str (vendor_name idata),
      gst_numbers idata \<noteq> []]"

definition status_of :: "real \<Rightarrow> string \<times> string \<times> real" where
  "status_of score =
     (if 90 \<le> score then (''Excellent'', ''Low Risk'', 10)
      else if 75 \<le> score then (''Good'', ''Low Risk'', 25)
      else if 60 \<le> score then (''Fair'', ''Medium Risk'', 50)
      else (''Poor'', ''High Risk'', 75))"

definition process_complete_compliance ::
  "float_parser \<Rightarrow> invoice_data \<Rightarrow> enhanced_data \<Rightarrow> ml_result option \<Rightarrow>
   error + compliance_results" where
  "process_complete_compliance pf idata enh ml =
     (let p1 = foldl (\<lambda>p c. bump c 1 p) 0 (basic_fields idata);
          p2 = bump (enhanced_data.hsn_sac_codes enh \<noteq> [] \<or> item_descriptions enh \<noteq> []) 1 p1;
          p3 = bump (80 \<le> ocr_confidence idata) 1 p2;
          gst_vals = map validate_gst_number (gst_numbers idata);
          p4 = foldl (\<lambda>p v. bump v (1 / 2) p) p3 gst_vals;
          hsn = hsn_validation (enhanced_data.hsn_sac_codes enh);
          p5 = bump (hsn \<noteq> None) 1 p4;
          arith = check_arithmetic_accuracy pf idata;
          p6 = bump (overall_accurate arith) 1 p5;
          p7 = fadd p6 1
      in case analyze_market_prices pf enh idata of
           Inl e \<Rightarrow> Inl e
         | Inr prices \<Rightarrow>
            (let p8 = bump (\<not> list_ex (\<lambda>(i, p). is_outlier p) prices) 1 p7;
                 score = fmul (fdiv p8 12) 100;
                 flagged = (case ml of None \<Rightarrow> False | Some m \<Rightarrow> is_anomaly m);
                 r0 = snd (snd (status_of score));
                 r1 = (if flagged then r0 + 20 else r0)
             in Inr \<lparr>compliance_score = score, checks_passed = p8, total_checks = 12,
                  compliance_status = fst (status_of score),
                  risk_level = (if flagged \<and> 50 < r1 then ''High Risk''
                                else fst (snd (status_of score))),
                  risk_score = r1,
                  gst_validations = gst_vals,
                  hsn_validations = (case hsn of None \<Rightarrow> [] | Some h \<Rightarrow> [h]),
                  duplicate_check = [],
                  arithmetic_result = arith,
                  price_analysis = prices,
                  anomalies_detected =
                    (if flagged then [''ML anomaly detected''] else []) @
                    (if ocr_confidence idata < 70 then [''Low OCR confidence''] else []) @
                    (if \<not> overall_accurate arith then [''Arithmetic error''] else [])\<rparr>))"

text \<open>
  \<open>extract_ml_features\<close>. \<open>pd.to_datetime\<close> is the parameter \<open>to_datetime\<close>, which
  returns the day of the week, the day and the month, and \<open>None\<close> where pandas raises.
  An exception inside the function makes it return \<open>None\<close>.
\<close>

type_synonym date_parser = "string \<Rightarrow> (int \<times> int \<times> int) option"

definition amount_features :: "float_parser \<Rightarrow> invoice_data \<Rightarrow> error + real list" where
  "amount_features pf idata =
     (if truthy (total_amount idata) then
        (case float_of_str pf (total_amount idata) of
           Inl e \<Rightarrow> Inl e
         | Inr amount \<Rightarrow>
             Inr [amount, py_fmod amount 1000, of_nat (len_str_int (py_trunc amount))])
      else Inr [0, 0, 0])"

definition date_features :: "date_parser \<Rightarrow> invoice_data \<Rightarrow> real list" where
  "date_features to_datetime idata =
     (case invoice_date idata of
        None \<Rightarrow> [0, 0, 0]
      | Some d \<Rightarrow>
          if d = [] then [0, 0, 0]
          else (case to_datetime d of
                  None \<Rightarrow> [0, 0, 0]
                | Some (dow, dy, mo) \<Rightarrow> [of_int dow, of_int dy, of_int mo]))"

definition quality_features :: "invoice_data \<Rightarrow> real list" where
  "quality_features idata =
     [ocr_confidence idata,
      of_nat (length (raw_text idata)),
      of_nat (length (gst_numbers idata)),
      (if truthy_str (vendor_name idata) then 1 else 0),
      (if truthy_str (invoice_number idata) then 1 else 0),
      (if truthy_str (invoice_date idata) then 1 else 0),
      (if truthy (total_amount idata) then 1 else 0),
      0]"

definition extract_ml_features ::
  "float_parser \<Rightarrow> date_parser \<Rightarrow> invoice_data \<Rightarrow> real list option" where
  "extract_ml_features pf to_datetime idata =
     (case amount_features pf idata of
        Inl e \<Rightarrow> None
      | Inr fa \<Rightarrow>
          (let features = fa @ date_features to_datetime idata @ quality_features idata
           in if 16 \<le> length features then Some features else None))"

section \<open>The document store (database.py)\<close>

text \<open>
  A collection is the list of its documents in insertion order; \<open>find\<close> returns the
  matching documents in that order and \<open>find_one\<close> the first of them. The store
  assigns each invoice a fresh \<open>ObjectId\<close>, modelled by a counter. An invoice id
  travels through the Python code as a string: \<open>OidStr n\<close> is the string that
  \<open>str\<close> makes of the \<open>ObjectId\<close> \<open>n\<close>, and \<open>OtherStr s\<close> is a string that
  \<open>ObjectId(...)\<close> rejects. A query compares the \<open>_id\<close> of a document, which is an
  \<open>ObjectId\<close>, with an \<open>ObjectId\<close> or with a string; a string never equals an
  \<open>ObjectId\<close>.
\<close>

datatype id_str = OidStr nat | OtherStr string

fun ObjectId :: "id_str \<Rightarrow> nat option" where
  "ObjectId (OidStr n) = Some n"
| "ObjectId (OtherStr s) = None"

datatype id_query = QOid nat | QStr id_str

fun ne_id :: "nat \<Rightarrow> id_query \<Rightarrow> bool" where
  "ne_id d (QOid n) = (d \<noteq> n)"
| "ne_id d (QStr s) = True"

text \<open>
  A \<open>datetime\<close> is its number of microseconds since the first instant of the year 1;
  the type ends with the year 9999.
\<close>

type_synonym datetime = int

definition us_per_day :: int where
  "us_per_day = 86400000000"

definition dt_max :: int where
  "dt_max = 3652059 * 86400000000 - 1"

record invoice_doc =
  doc_id :: nat
  uploadDate :: datetime
  invoiceNumber :: "string option"
  vendorName :: "string option"
  gstNumber :: "string option"
  allGstNumbers :: "string list"
  totalAmount :: real
  invoiceDate :: "string option"
  hsnCodes :: "string list"
  ocrConfidence :: real
  rawText :: string

record vendor_doc =
  gstNumber :: string
  vendorName :: "string option"
  totalInvoices :: int
  totalAmount :: real
  firstInvoiceDate :: datetime
  lastInvoiceDate :: datetime

text \<open>
  An anomaly as \<open>detect_anomalies\<close> returns it, and as it is stored. The description,
  a sentence for display, is left out.
\<close>

record anomaly =
  atype :: string
  severity :: string
  relatedInvoiceId :: "id_str option"

record anomaly_doc =
  invoiceId :: id_str
  invoiceNumber :: "string option"
  anomalyType :: string
  severity :: string
  detectedDate :: datetime
  relatedInvoiceId :: "id_str option"

record db =
  invoices :: "invoice_doc list"
  vendors :: "vendor_doc list"
  anomalies :: "anomaly_doc list"
  next_oid :: nat

definition empty_db :: db where
  "empty_db = \<lparr>invoices = [], vendors = [], anomalies = [], next_oid = 0\<rparr>"

text \<open>
  \<open>update_one\<close> changes the first document that matches. \<open>_update_vendor_stats\<close>
  is \<open>update_vendor_stats\<close>; \<open>$inc\<close> on the amount is a float addition.
\<close>

fun update_one :: "('a \<Rightarrow> bool) \<Rightarrow> ('a \<Rightarrow> 'a) \<Rightarrow> 'a list \<Rightarrow> 'a list" where
  "update_one P f [] = []"
| "update_one P f (x # xs) = (if P x then f x # xs else x # update_one P f xs)"

definition update_vendor_stats :: "datetime \<Rightarrow> invoice_doc \<Rightarrow> db \<Rightarrow> db" where
  "update_vendor_stats now doc s =
     (case invoice_doc.gstNumber doc of
        None \<Rightarrow> s
      | Some g \<Rightarrow>
          if g = [] \<or> g = ''Unknown'' then s
          else
            (case find (\<lambda>v. vendor_doc.gstNumber v = g) (vendors s) of
               Some vendor \<Rightarrow>
                 s\<lparr>vendors :=
                     update_one (\<lambda>v. vendor_doc.gstNumber v = g)
                       (\<lambda>v. v\<lparr>totalInvoices := totalInvoices v + 1,
                               vendor_doc.totalAmount :=
                                 fadd (vendor_doc.totalAmount v) (invoice_doc.totalAmount doc),
                               lastInvoiceDate := now,
                               vendor_doc.vendorName := invoice_doc.vendorName doc\<rparr>)
                       (vendors s)\<rparr>
             | None \<Rightarrow>
                 s\<lparr>vendors := vendors s @
                     [\<lparr>vendor_doc.gstNumber = g,
                       vendor_doc.vendorName = invoice_doc.vendorName doc,
                       totalInvoices = 1,
                       vendor_doc.totalAmount = invoice_doc.totalAmount doc,
                       firstInvoiceDate = now, lastInvoiceDate = now\<rparr>]\<rparr>))"

text \<open>
  \<open>store_invoice\<close>: the clock is an argument, and the calls of \<open>datetime.now()\<close>
  within one call of the function are one reading \<open>now\<close>. Building the document
  raises when one of its two calls of \<open>float(...)\<close> does, that of the total first,
  before anything is written.
\<close>

definition invoice_doc_of ::
  "nat \<Rightarrow> datetime \<Rightarrow> invoice_data \<Rightarrow> real \<Rightarrow> real \<Rightarrow> invoice_doc" where
  "invoice_doc_of oid now idata amount conf =
     \<lparr>doc_id = oid, uploadDate = now,
      invoice_doc.invoiceNumber = invoice_number idata,
      invoice_doc.vendorName = vendor_name idata,
      invoice_doc.gstNumber = (case gst_numbers idata of [] \<Rightarrow> None | g # gs \<Rightarrow> Some g),
      allGstNumbers = gst_numbers idata,
      invoice_doc.totalAmount = amount,
      invoiceDate = invoice_date idata,
      hsnCodes = hsn_sac_codes idata,
      ocrConfidence = conf,
      rawText = take 1000 (raw_text idata)\<rparr>"

definition store_invoice ::
  "float_parser \<Rightarrow> datetime \<Rightarrow> invoice_data \<Rightarrow> db \<Rightarrow> error + (id_str \<times> db)" where
  "store_invoice pf now idata s =
     (case py_float pf (get0 (total_amount idata)) of
        Inl e \<Rightarrow> Inl e
      | Inr amount \<Rightarrow>
          (case to_float (ocr_confidence idata) of
             Inl e \<Rightarrow> Inl e
           | Inr conf \<Rightarrow>
               (let doc = invoice_doc_of (next_oid s) now idata amount conf;
                    s1 = s\<lparr>invoices := invoices s @ [doc], next_oid := next_oid s + 1\<rparr>
                in Inr (OidStr (doc_id doc), update_vendor_stats now doc s1))))"

text \<open>
  \<open>vendors_stats\<close>: the \<open>$group\<close> stage yields one row when some invoice carries the
  vendor name, and no row otherwise. \<open>$avg\<close> accumulates the total with extra
  precision; it is modelled as the exact total rounded once, then divided.
\<close>

record vendor_stats =
  avgAmount :: real
  maxAmount :: real
  minAmount :: real
  countInvoices :: nat

definition vendors_stats :: "db \<Rightarrow> string \<Rightarrow> vendor_stats list" where
  "vendors_stats s name =
     (case map invoice_doc.totalAmount
             (filter (\<lambda>d. invoice_doc.vendorName d = Some name) (invoices s)) of
        [] \<Rightarrow> []
      | a # as \<Rightarrow>
          [\<lparr>avgAmount = fdiv (fl (sum_list (a # as))) (of_nat (length (a # as))),
            maxAmount = foldl max a as, minAmount = foldl min a as,
            countInvoices = length (a # as)\<rparr>])"

text \<open>The checks of \<open>detect_anomalies\<close>, one definition for each numbered block.\<close>

definition check_duplicate :: "db \<Rightarrow> invoice_data \<Rightarrow> id_query \<Rightarrow> anomaly list" where
  "check_duplicate s idata obj_id =
     (case find (\<lambda>d. invoice_doc.invoiceNumber d = invoice_number idata \<and> ne_id (doc_id d) obj_id)
             (invoices s) of
        None \<Rightarrow> []
      | Some duplicate \<Rightarrow>
          [\<lparr>atype = ''DUPLICATE_INVOICE'', anomaly.severity = ''HIGH'',
            anomaly.relatedInvoiceId = Some (OidStr (doc_id duplicate))\<rparr>])"

definition check_missing_gst :: "invoice_data \<Rightarrow> anomaly list" where
  "check_missing_gst idata =
     (if gst_numbers idata = [] \<or> length (gst_numbers idata) = 0 \<or> gst_missing idata
      then [\<lparr>atype = ''MISSING_GST'', anomaly.severity = ''HIGH'',
             anomaly.relatedInvoiceId = None\<rparr>]
      else [])"

definition primary_gst :: "invoice_data \<Rightarrow> string option" where
  "primary_gst idata =
     (case gst_numbers idata of [] \<Rightarrow> None | g # gs \<Rightarrow> if g = [] then None else Some g)"

definition check_invalid_gst :: "invoice_data \<Rightarrow> anomaly list" where
  "check_invalid_gst idata =
     (case primary_gst idata of
        None \<Rightarrow> []
      | Some g \<Rightarrow>
          (case gst_verification idata of
             [] \<Rightarrow> []
           | v # vs \<Rightarrow>
               if \<not> success v \<or> \<not> is_active v
               then [\<lparr>atype = ''INVALID_GST'', anomaly.severity = ''HIGH'',
                      anomaly.relatedInvoiceId = None\<rparr>]
               else []))"

definition check_gst_vendor_mismatch :: "db \<Rightarrow> invoice_data \<Rightarrow> id_query \<Rightarrow> anomaly list" where
  "check_gst_vendor_mismatch s idata obj_id =
     (case primary_gst idata of
        None \<Rightarrow> []
      | Some g \<Rightarrow>
          (case find (\<lambda>d. invoice_doc.gstNumber d = Some g \<and>
                           invoice_doc.vendorName d \<noteq> vendor_name idata \<and>
                           ne_id (doc_id d) obj_id) (invoices s) of
             None \<Rightarrow> []
           | Some different_vendor \<Rightarrow>
               [\<lparr>atype = ''GST_VENDOR_MISMATCH'', anomaly.severity = ''HIGH'',
                 anomaly.relatedInvoiceId = Some (OidStr (doc_id different_vendor))\<rparr>]))"

definition check_unusual_amount ::
  "float_parser \<Rightarrow> db \<Rightarrow> invoice_data \<Rightarrow> error + anomaly list" where
  "check_unusual_amount pf s idata =
     (case vendor_name idata of
        None \<Rightarrow> Inr []
      | Some name \<Rightarrow>
          if name = [] \<or> name = ''Unknown'' then Inr []
          else
            (case vendors_stats s name of
               [] \<Rightarrow> Inr []
             | st # sts \<Rightarrow>
                 (case py_float pf (get0 (total_amount idata)) of
                    Inl e \<Rightarrow> Inl e
                  | Inr current_amount \<Rightarrow>
                      if 0 < avgAmount st \<and> fmul (avgAmount st) 3 < current_amount
                      then Inr [\<lparr>atype = ''UNUSUAL_AMOUNT'', anomaly.severity = ''MEDIUM'',
                                 anomaly.relatedInvoiceId = None\<rparr>]
                      else Inr [])))"

definition check_invalid_hsn :: "invoice_data \<Rightarrow> anomaly list" where
  "check_invalid_hsn idata =
     map (\<lambda>v. \<lparr>atype = ''INVALID_HSN_SAC'', anomaly.severity = ''HIGH'',
               anomaly.relatedInvoiceId = None\<rparr>)
       (filter (\<lambda>v. \<not> is_valid v) (hsn_sac_verification idata))"

definition check_rate_mismatch :: "invoice_data \<Rightarrow> anomaly list" where
  "check_rate_mismatch idata =
     (case hsn_sac_line_items_verification idata of
        None \<Rightarrow> []
      | Some mismatches \<Rightarrow>
          map (\<lambda>m. \<lparr>atype = ''HSN_GST_RATE_MISMATCH'', anomaly.severity = ''HIGH'',
                    anomaly.relatedInvoiceId = None\<rparr>) mismatches)"

text \<open>
  Block 6, the loop over \<open>hsn_codes[:3]\<close>. Its query excludes the \<open>_id\<close> that
  equals \<open>invoice_id\<close>, the string, where the other queries pass \<open>obj_id\<close>.
\<close>

definition similar_invoices :: "db \<Rightarrow> string \<Rightarrow> id_str \<Rightarrow> invoice_doc list" where
  "similar_invoices s hsn invoice_id =
     take 10 (filter (\<lambda>d. hsn \<in> set (hsnCodes d) \<and> ne_id (doc_id d) (QStr invoice_id))
                (invoices s))"

definition hsn_deviates :: "real \<Rightarrow> real \<Rightarrow> bool" where
  "hsn_deviates current_amount avg_hsn_amount \<longleftrightarrow>
     0 < avg_hsn_amount \<and> fmul avg_hsn_amount (1 / 2) < \<bar>fsub current_amount avg_hsn_amount\<bar>"

fun hsn_price_loop ::
  "float_parser \<Rightarrow> db \<Rightarrow> invoice_data \<Rightarrow> id_str \<Rightarrow> string list \<Rightarrow> error + anomaly list" where
  "hsn_price_loop pf s idata invoice_id [] = Inr []"
| "hsn_price_loop pf s idata invoice_id (hsn # rest) =
     (let similar = similar_invoices s hsn invoice_id
      in if 3 \<le> length similar then
           (let amounts = filter (\<lambda>a. 0 < a) (map invoice_doc.totalAmount similar)
            in if amounts \<noteq> [] then
                 (case py_float pf (get0 (total_amount idata)) of
                    Inl e \<Rightarrow> Inl e
                  | Inr current_amount \<Rightarrow>
                      if hsn_deviates current_amount
                           (fdiv (py_sum amounts) (of_nat (length amounts)))
                      then Inr [\<lparr>atype = ''HSN_PRICE_DEVIATION'', anomaly.severity = ''MEDIUM'',
                                 anomaly.relatedInvoiceId = None\<rparr>]
                      else hsn_price_loop pf s idata invoice_id rest)
               else hsn_price_loop pf s idata invoice_id rest)
         else hsn_price_loop pf s idata invoice_id rest)"

definition check_hsn_price ::
  "float_parser \<Rightarrow> db \<Rightarrow> invoice_data \<Rightarrow> id_str \<Rightarrow> error + anomaly list" where
  "check_hsn_price pf s idata invoice_id =
     hsn_price_loop pf s idata invoice_id (take 3 (hsn_sac_codes idata))"

definition anomaly_doc_of :: "datetime \<Rightarrow> invoice_data \<Rightarrow> id_str \<Rightarrow> anomaly \<Rightarrow> anomaly_doc" where
  "anomaly_doc_of now idata invoice_id a =
     \<lparr>invoiceId = invoice_id, anomaly_doc.invoiceNumber = invoice_number idata,
      anomalyType = atype a, anomaly_doc.severity = anomaly.severity a,
      detectedDate = now, anomaly_doc.relatedInvoiceId = anomaly.relatedInvoiceId a\<rparr>"

definition detect_anomalies ::
  "float_parser \<Rightarrow> datetime \<Rightarrow> invoice_data \<Rightarrow> id_str \<Rightarrow> db \<Rightarrow>
   error + (anomaly list \<times> db)" where
  "detect_anomalies pf now idata invoice_id s =
     (let obj_id = (case ObjectId invoice_id of Some n \<Rightarrow> QOid n | None \<Rightarrow> QStr invoice_id);
          found = check_duplicate s idata obj_id @ check_missing_gst idata @
                  check_invalid_gst idata @ check_gst_vendor_mismatch s idata obj_id
      in case check_unusual_amount pf s idata of
           Inl e \<Rightarrow> Inl e
         | Inr unusual \<Rightarrow>
             (case check_hsn_price pf s idata invoice_id of
                Inl e \<Rightarrow> Inl e
              | Inr deviation \<Rightarrow>
                  (let result = found @ unusual @ check_invalid_hsn idata @
                                check_rate_mismatch idata @ deviation
                   in Inr (result,
                           s\<lparr>anomalies := anomalies s @
                               map (anomaly_doc_of now idata invoice_id) result\<rparr>))))"

text \<open>
  \<open>get_anomaly_trends\<close>. A calendar day is its number, counted from the first day of
  the year 1: \<open>$dateToString\<close> and \<open>strftime('%Y-%m-%d')\<close> write the same text for
  the same day, and the text is replaced by the day number. \<open>now\<close> is the reading
  of \<open>datetime.now()\<close>. The arithmetic on dates raises \<open>OverflowError\<close> outside the
  range of \<open>datetime\<close> and \<open>timedelta\<close>. The store keeps a date to the millisecond;
  the model keeps it as it is.
\<close>

record trend =
  date :: int
  duplicates :: nat
  invalidGst :: nat
  missingGst :: nat
  hsnAnomalies :: nat
  total :: nat

definition zero_trend :: "int \<Rightarrow> trend" where
  "zero_trend d = \<lparr>date = d, duplicates = 0, invalidGst = 0, missingGst = 0,
                    hsnAnomalies = 0, total = 0\<rparr>"

definition day_of :: "datetime \<Rightarrow> int" where
  "day_of t = t div us_per_day"

definition group_key :: "anomaly_doc \<Rightarrow> int \<times> string" where
  "group_key a = (day_of (detectedDate a), anomalyType a)"

text \<open>The aggregation pipeline: \<open>$match\<close>, \<open>$group\<close> with a count, \<open>$sort\<close> by date.\<close>

definition anomaly_counts :: "db \<Rightarrow> datetime \<Rightarrow> datetime \<Rightarrow> ((int \<times> string) \<times> nat) list" where
  "anomaly_counts s start_date end_date =
     (let matched = filter (\<lambda>a. start_date \<le> detectedDate a \<and> detectedDate a \<le> end_date)
                      (anomalies s)
      in sort_key (\<lambda>r. fst (fst r))
           (map (\<lambda>k. (k, length (filter (\<lambda>a. group_key a = k) matched)))
              (remdups (map group_key matched))))"

definition add_result :: "(int \<rightharpoonup> trend) \<Rightarrow> (int \<times> string) \<times> nat \<Rightarrow> (int \<rightharpoonup> trend)" where
  "add_result m r =
     (let d = fst (fst r); anomaly_type = snd (fst r); count = snd r;
          e = (case m d of None \<Rightarrow> zero_trend d | Some e \<Rightarrow> e);
          e1 = (if anomaly_type = ''DUPLICATE_INVOICE''
                  then e\<lparr>duplicates := duplicates e + count\<rparr>
                else if anomaly_type \<in> set [''INVALID_GST'', ''GST_VENDOR_MISMATCH'']
                  then e\<lparr>invalidGst := invalidGst e + count\<rparr>
                else if anomaly_type = ''MISSING_GST''
                  then e\<lparr>missingGst := missingGst e + count\<rparr>
                else if anomaly_type \<in> set [''INVALID_HSN_SAC'', ''HSN_GST_RATE_MISMATCH'',
                                             ''HSN_PRICE_DEVIATION'', ''UNUSUAL_AMOUNT'']
                  then e\<lparr>hsnAnomalies := hsnAnomalies e + count\<rparr>
                else e)
      in m(d \<mapsto> e1\<lparr>total := total e1 + count\<rparr>))"

definition entry_of :: "(int \<rightharpoonup> trend) \<Rightarrow> int \<Rightarrow> trend" where
  "entry_of m d = (case m d of Some e \<Rightarrow> e | None \<Rightarrow> zero_trend d)"

function fill_dates :: "(int \<rightharpoonup> trend) \<Rightarrow> datetime \<Rightarrow> datetime \<Rightarrow> error + trend list" where
  "fill_dates m current_date end_date =
     (if current_date \<le> end_date then
        (if dt_max < current_date + us_per_day then Inl OverflowError
         else (case fill_dates m (current_date + us_per_day) end_date of
                 Inl e \<Rightarrow> Inl e
               | Inr rest \<Rightarrow> Inr (entry_of m (day_of current_date) # rest)))
      else Inr [])"
  by pat_completeness auto
termination
  by (relation "measure (\<lambda>(m, c, e). nat (e - c + 1))") (auto simp: us_per_day_def)

declare fill_dates.simps [simp del]

definition get_anomaly_trends :: "db \<Rightarrow> datetime \<Rightarrow> int \<Rightarrow> error + trend list" where
  "get_anomaly_trends s now days =
     (if 999999999 < \<bar>days\<bar> then Inl OverflowError
      else
        (let end_date = now;
             start_date = end_date - days * us_per_day
         in if start_date < 0 \<or> dt_max < start_date then Inl OverflowError
            else fill_dates
                   (foldl add_result Map.empty (anomaly_counts s start_date end_date))
                   start_date end_date))"

section \<open>Notions used in the statements\<close>

text \<open>
  An invoice can be stored when \<open>float\<close> accepts its total and its OCR confidence;
  \<open>amount_of\<close> and \<open>conf_of\<close> are then the two values that are stored.
  \<open>store_all\<close> stores a sequence of invoices, each with the clock reading of its
  upload, and stops at the first one that raises.
\<close>

definition storable :: "float_parser \<Rightarrow> invoice_data \<Rightarrow> bool" where
  "storable pf idata =
     (case py_float pf (get0 (total_amount idata)) of
        Inl e \<Rightarrow> False
      | Inr a \<Rightarrow> (case to_float (ocr_confidence idata) of Inl e \<Rightarrow> False | Inr c \<Rightarrow> True))"

definition amount_of :: "float_parser \<Rightarrow> invoice_data \<Rightarrow> real" where
  "amount_of pf idata =
     (case py_float pf (get0 (total_amount idata)) of Inl e \<Rightarrow> 0 | Inr a \<Rightarrow> a)"

definition conf_of :: "invoice_data \<Rightarrow> real" where
  "conf_of idata = fl (ocr_confidence idata)"

fun store_all :: "float_parser \<Rightarrow> (datetime \<times> invoice_data) list \<Rightarrow> db \<Rightarrow> error + db" where
  "store_all pf [] s = Inr s"
| "store_all pf ((now, idata) # rest) s =
     (case store_invoice pf now idata s of
        Inl e \<Rightarrow> Inl e
      | Inr (invoice_id, s1) \<Rightarrow> store_all pf rest s1)"




text \<open>The anomaly that block 6 of \<open>detect_anomalies\<close> reports.\<close>

definition price_deviation :: anomaly where
  "price_deviation =
     \<lparr>atype = ''HSN_PRICE_DEVIATION'', anomaly.severity = ''MEDIUM'',
      anomaly.relatedInvoiceId = None\<rparr>"

section \<open>Sample data\<close>

definition no_float :: float_parser where
  "no_float s = None"

text \<open>A reader of floats that agrees with Python on the text \<open>1000\<close> and refuses the rest.\<close>

definition thousand_float :: float_parser where
  "thousand_float s = (if s = ''1000'' then Some 1000 else None)"

definition sample_invoice :: invoice_data where
  "sample_invoice =
     \<lparr>invoice_number = Some ''INV-001'', vendor_name = Some ''Acme'',
      gst_numbers = [''22AAAAA0000A1Z5'', ''24ABYFM2874M1ZD'', ''24AAGFD1279G1ZM''],
      total_amount = Num 25000, invoice_date = Some ''2024-01-15'',
      ocr_confidence = 95, raw_text = ''INVOICE'', gst_missing = False,
      gst_verification = [], hsn_sac_verification = [],
      hsn_sac_line_items_verification = None, hsn_sac_codes = [''8471'']\<rparr>"

definition sample_enhanced :: enhanced_data where
  "sample_enhanced =
     \<lparr>enhanced_data.hsn_sac_codes = [''8471''], item_descriptions = [], quantities = []\<rparr>"

definition invoice_a :: invoice_data where
  "invoice_a =
     \<lparr>invoice_number = Some ''A-1'', vendor_name = Some ''Acme'',
      gst_numbers = [''22AAAAA0000A1Z5''],
      total_amount = Num 10000, invoice_date = Some ''2024-01-15'',
      ocr_confidence = 95, raw_text = ''INVOICE A'', gst_missing = False,
      gst_verification = [\<lparr>success = True, is_active = True\<rparr>],
      hsn_sac_verification = [], hsn_sac_line_items_verification = None,
      hsn_sac_codes = []\<rparr>"

definition invoice_b :: invoice_data where
  "invoice_b =
     \<lparr>invoice_number = Some ''B-1'', vendor_name = Some ''Acme'',
      gst_numbers = [],
      total_amount = Num 35000, invoice_date = Some ''2024-01-16'',
      ocr_confidence = 95, raw_text = ''INVOICE B'', gst_missing = True,
      gst_verification = [\<lparr>success = False, is_active = False\<rparr>],
      hsn_sac_verification = [], hsn_sac_line_items_verification = None,
      hsn_sac_codes = []\<rparr>"

text \<open>
  An uppercase table that agrees with Unicode on the sharp s, U+00DF, whose uppercase
  is SS, and keeps every other code point.
\<close>

definition sharp_s_table :: upper_table where
  "sharp_s_table c = (if c = 223 then [83, 83] else [c])"

definition hsn_invoice :: "string \<Rightarrow> real \<Rightarrow> invoice_data" where
  "hsn_invoice n amount =
     \<lparr>invoice_number = Some n, vendor_name = Some ''Acme'',
      gst_numbers = [''22AAAAA0000A1Z5''],
      total_amount = Num amount, invoice_date = Some ''2024-01-15'',
      ocr_confidence = 95, raw_text = ''INVOICE'', gst_missing = False,
      gst_verification = [\<lparr>success = True, is_active = True\<rparr>],
      hsn_sac_verification = [], hsn_sac_line_items_verification = None,
      hsn_sac_codes = [''8471'']\<rparr>"

section \<open>Rounding\<close>

lemma pow2_powi: "pow2 e = 2 powi e"
  by (simp add: pow2_def power_int_def inverse_eq_divide power_one_over)

lemma pow2_pos: "0 < pow2 e"
  by (simp add: pow2_powi)

lemma pow2_shift: "pow2 (e - 52) = pow2 e / 2 ^ 52"
  by (simp add: pow2_powi power_int_diff)

lemma bitlen_bounds:
  "0 < n \<Longrightarrow> 1 \<le> bitlen n \<and> 2 ^ nat (bitlen n - 1) \<le> n \<and> n < 2 ^ nat (bitlen n)"
proof (induction n rule: bitlen.induct)
  case (1 n)
  show ?case
  proof (cases "n div 2 = 0")
    case True
    with "1.prems" have n1: "n = 1" by auto
    have "bitlen 1 = 1" by (simp add: bitlen.simps)
    with n1 show ?thesis by simp
  next
    case False
    with "1.prems" have pos: "0 < n div 2" by (simp add: pos_imp_zdiv_pos_iff)
    from "1.prems" have nle: "\<not> n \<le> 0" by simp
    from "1.IH"[OF nle pos] have ih: "1 \<le> bitlen (n div 2)"
      "2 ^ nat (bitlen (n div 2) - 1) \<le> n div 2" "n div 2 < 2 ^ nat (bitlen (n div 2))"
      by auto
    have bl: "bitlen n = 1 + bitlen (n div 2)" using nle by (subst bitlen.simps) simp
    have e1: "nat (bitlen n - 1) = Suc (nat (bitlen (n div 2) - 1))" using bl ih(1) by simp
    have e2: "nat (bitlen n) = Suc (nat (bitlen (n div 2)))" using bl ih(1) by simp
    have "2 * (n div 2) \<le> n" "n < 2 * (n div 2) + 2" by presburger+
    with ih show ?thesis unfolding e1 e2 using bl by auto
  qed
qed

lemma ilog2_lower: assumes "0 < x" shows "pow2 (ilog2 x) \<le> x"
proof (cases "1 \<le> x")
  case True
  then have n: "0 < \<lfloor>x\<rfloor>" by simp
  from bitlen_bounds[OF n] have b: "1 \<le> bitlen \<lfloor>x\<rfloor>" "2 ^ nat (bitlen \<lfloor>x\<rfloor> - 1) \<le> \<lfloor>x\<rfloor>" by auto
  have "pow2 (ilog2 x) = 2 ^ nat (bitlen \<lfloor>x\<rfloor> - 1)" using True b(1) by (simp add: ilog2_def pow2_def)
  also have "\<dots> = of_int (2 ^ nat (bitlen \<lfloor>x\<rfloor> - 1))" by simp
  also have "\<dots> \<le> of_int \<lfloor>x\<rfloor>" using b(2) by (simp only: of_int_le_iff)
  also have "\<dots> \<le> x" by simp
  finally show ?thesis .
next
  case False
  with assms have "1 < 1 / x" by simp
  then have m: "0 < \<lceil>1 / x\<rceil> - 1" by (simp add: less_ceiling_iff)
  define m where "m = \<lceil>1 / x\<rceil> - 1"
  from bitlen_bounds[OF m] have b: "1 \<le> bitlen m" "m < 2 ^ nat (bitlen m)" by (auto simp: m_def)
  have "1 / x \<le> of_int \<lceil>1 / x\<rceil>" by simp
  also have "\<dots> = of_int (m + 1)" by (simp add: m_def)
  also have "\<dots> \<le> of_int (2 ^ nat (bitlen m))" using b(2) by (simp only: of_int_le_iff)
  also have "\<dots> = 2 ^ nat (bitlen m)" by simp
  finally have "1 / x \<le> 2 ^ nat (bitlen m)" .
  then have "1 / 2 ^ nat (bitlen m) \<le> x" using assms
    by (simp add: field_simps)
  moreover have "pow2 (ilog2 x) = 1 / 2 ^ nat (bitlen m)" using False b(1)
    by (simp add: ilog2_def pow2_def m_def)
  ultimately show ?thesis by simp
qed

lemma round_half_even_err: "\<bar>of_int (round_half_even y) - y\<bar> \<le> 1 / 2"
proof -
  have "of_int \<lfloor>y\<rfloor> \<le> y" "y < of_int \<lfloor>y\<rfloor> + 1" by linarith+
  then show ?thesis by (auto simp: round_half_even_def Let_def)
qed

lemma fl_err: "\<bar>fl x - x\<bar> \<le> \<bar>x\<bar> / 2 ^ 53 + 1 / 2 ^ 1075"
proof (cases "x = 0")
  case True then show ?thesis by (simp add: fl_def)
next
  case False
  define u where "u = pow2 (max (ilog2 \<bar>x\<bar>) (- 1022) - 52)"
  have upos: "0 < u" by (simp add: u_def pow2_pos)
  have flx: "fl x = of_int (round_half_even (x / u)) * u" using False by (simp add: fl_def u_def Let_def)
  have "fl x - x = (of_int (round_half_even (x / u)) - x / u) * u" using upos by (simp add: flx field_simps)
  then have "\<bar>fl x - x\<bar> = \<bar>of_int (round_half_even (x / u)) - x / u\<bar> * u" using upos by (simp add: abs_mult)
  also have "\<dots> \<le> (1 / 2) * u" using round_half_even_err[of "x / u"] upos by (intro mult_right_mono) auto
  finally have e: "\<bar>fl x - x\<bar> \<le> u / 2" by simp
  have "u \<le> \<bar>x\<bar> / 2 ^ 52 + 1 / 2 ^ 1074"
  proof (cases "- 1022 \<le> ilog2 \<bar>x\<bar>")
    case True
    then have "u = pow2 (ilog2 \<bar>x\<bar>) / 2 ^ 52" by (simp add: u_def pow2_shift max_def)
    also have "\<dots> \<le> \<bar>x\<bar> / 2 ^ 52" using ilog2_lower[of "\<bar>x\<bar>"] False by (simp add: divide_right_mono)
    finally show ?thesis by (simp add: add_increasing2)
  next
    case False
    then have "u = pow2 (- 1074)" by (simp add: u_def max_def)
    then have "u = 1 / 2 ^ 1074" by (simp add: pow2_def)
    then show ?thesis by simp
  qed
  with e show ?thesis by simp
qed

lemma fl_err_coarse: "\<bar>fl x - x\<bar> \<le> \<bar>x\<bar> / 9007199254740992 + 1 / 1000"
proof -
  have "(1::real) / 2 ^ 1075 \<le> 1 / 2 ^ 10" by (intro divide_left_mono power_increasing) auto
  then have "(1::real) / 2 ^ 1075 \<le> 1 / 1000" by simp
  with fl_err[of x] show ?thesis by simp
qed

lemmas fl_eval = fl_def ilog2_def pow2_def round_half_even_def Let_def
  fdiv_def fmul_def fadd_def fsub_def bitlen.simps

lemma fl_118: "fl (118 / 100) = 5314247560297185 / 4503599627370496"
  by (simp add: fl_eval)

lemma fl_18: "fl (18 / 100) = 3242591731706757 / 18014398509481984"
  by (simp add: fl_eval)

lemma err_step:
  fixes v w B E :: real
  assumes "\<bar>v - w\<bar> \<le> \<bar>w\<bar> / 9007199254740992 + 1 / 1000" and "\<bar>w\<bar> \<le> B"
    and "B / 9007199254740992 + 1 / 1000 \<le> E"
  shows "\<bar>v - w\<bar> \<le> E"
proof -
  have "\<bar>w\<bar> / 9007199254740992 \<le> B / 9007199254740992"
    using assms(2) by (simp add: divide_right_mono)
  with assms(1,3) show ?thesis by linarith
qed

lemma reconstruct_close:
  assumes a: "\<bar>a\<bar> \<le> 2 ^ 51 + 1"
  shows "\<bar>fsub a (fadd (fdiv a (fl (118 / 100))) (fmul (fdiv a (fl (118 / 100))) (fl (18 / 100))))\<bar> < 1"
proof -
  define x where "x = a * (4503599627370496 / 5314247560297185)"
  define b where "b = fl x"
  define y where "y = b * (3242591731706757 / 18014398509481984)"
  define g where "g = fl y"
  define t where "t = fl (b + g)"
  define d where "d = fl (a - t)"
  have h1: "\<bar>b - x\<bar> \<le> \<bar>x\<bar> / 9007199254740992 + 1 / 1000"
    unfolding b_def by (rule fl_err_coarse)
  have h2: "\<bar>g - y\<bar> \<le> \<bar>y\<bar> / 9007199254740992 + 1 / 1000"
    unfolding g_def by (rule fl_err_coarse)
  have h3: "\<bar>t - (b + g)\<bar> \<le> \<bar>b + g\<bar> / 9007199254740992 + 1 / 1000"
    unfolding t_def by (rule fl_err_coarse)
  have h4: "\<bar>d - (a - t)\<bar> \<le> \<bar>a - t\<bar> / 9007199254740992 + 1 / 1000"
    unfolding d_def by (rule fl_err_coarse)
  have a': "\<bar>a\<bar> \<le> 2251799813685249" using a by simp
  have xb: "\<bar>x\<bar> \<le> 1908400000000000"
    using a' unfolding x_def by (simp add: abs_mult)
  have e1: "\<bar>b - x\<bar> \<le> 22 / 100" by (rule err_step[OF h1 xb]) simp
  have bb: "\<bar>b\<bar> \<le> 1908400000000001" using e1 xb by linarith
  have yb: "\<bar>y\<bar> \<le> 343600000000000"
    using bb unfolding y_def by (simp add: abs_mult)
  have e2: "\<bar>g - y\<bar> \<le> 4 / 100" by (rule err_step[OF h2 yb]) simp
  have bg: "\<bar>b + g\<bar> \<le> 2252100000000000" using bb yb e2 by linarith
  have e3: "\<bar>t - (b + g)\<bar> \<le> 26 / 100" by (rule err_step[OF h3 bg]) simp
  have r: "\<bar>a - x - x * (3242591731706757 / 18014398509481984)\<bar> \<le> 11 / 100"
  proof -
    have "a - x - x * (3242591731706757 / 18014398509481984)
          = a * (- 1 / (4 * 5314247560297185))"
      unfolding x_def by (simp add: field_simps)
    then show ?thesis using a' by (simp add: abs_mult)
  qed
  have split: "a - t = (a - x - x * (3242591731706757 / 18014398509481984))
      - (b - x) * (21256990241188741 / 18014398509481984) - (g - y) - (t - (b + g))"
    unfolding y_def by (simp add: field_simps)
  have e1': "\<bar>(b - x) * (21256990241188741 / 18014398509481984)\<bar> \<le> 26 / 100"
  proof -
    have "\<bar>e * (21256990241188741 / 18014398509481984)\<bar>
          = \<bar>e\<bar> * (21256990241188741 / 18014398509481984)" for e :: real
      by (simp add: abs_mult)
    from this[of "b - x"]
    have "\<bar>(b - x) * (21256990241188741 / 18014398509481984)\<bar>
          = \<bar>b - x\<bar> * (21256990241188741 / 18014398509481984)" .
    also have "\<dots> \<le> (22 / 100) * (21256990241188741 / 18014398509481984)"
      by (rule mult_right_mono[OF e1]) simp
    also have "\<dots> \<le> 26 / 100" by simp
    finally show ?thesis .
  qed
  have at: "\<bar>a - t\<bar> \<le> 7 / 10"
    using r e1' e2 e3 unfolding split by linarith
  have "\<bar>d - (a - t)\<bar> \<le> 1 / 100" by (rule err_step[OF h4 at]) simp
  with at have "\<bar>d\<bar> < 1" by linarith
  moreover have "fsub a (fadd (fdiv a (fl (118 / 100))) (fmul (fdiv a (fl (118 / 100))) (fl (18 / 100)))) = d"
    unfolding fsub_def fadd_def fdiv_def fmul_def fl_118 fl_18 d_def t_def g_def y_def b_def x_def
    by simp
  ultimately show ?thesis by simp
qed

lemma fl_118n: "fl (59 / 50) = 5314247560297185 / 4503599627370496"
  using fl_118 by simp

lemma fl_18n: "fl (9 / 50) = 3242591731706757 / 18014398509481984"
  using fl_18 by simp

section \<open>GST format validation\<close>

lemma matches_classes_length: "matches_classes ps s \<Longrightarrow> length s = length ps"
  by (simp add: matches_classes_def list_all2_lengthD)

lemma matches_classes_all:
  assumes "matches_classes ps s" and "\<And>p c. p \<in> set ps \<Longrightarrow> p c \<Longrightarrow> Q c"
  shows "\<forall>c \<in> set s. Q c"
  using assms unfolding matches_classes_def
  by (induction ps s rule: list_all2_induct) auto

lemma gst_class_plain:
  assumes "p \<in> set gst_format_pattern" and "p c"
  shows "c < 128 \<and> \<not> (97 \<le> c \<and> c \<le> 122) \<and> c \<noteq> 32"
  using assms
  by (auto simp: gst_format_pattern_def cp_digit_def cp_upper_def
      cp_19AZ_def cp_09AZ_def cp_Z_def)

lemma py_upper_plain:
  "\<forall>c \<in> set s. c < 128 \<and> \<not> (97 \<le> c \<and> c \<le> 122) \<Longrightarrow> py_upper uc s = s"
  by (induction s) (auto simp: py_upper_def upper_cp_def)

lemma py_upper_ascii_length:
  "list_all (\<lambda>c. c < 128) s \<Longrightarrow> length (py_upper uc s) = length s"
  by (induction s) (auto simp: py_upper_def upper_cp_def)

lemma validate_gst_format_canonical:
  assumes m: "matches_classes gst_format_pattern s"
  shows "validate_gst_format uc s"
proof -
  have len: "length s = 15"
    using matches_classes_length[OF m] by (simp add: gst_format_pattern_def)
  have each: "\<forall>c \<in> set s. c < 128 \<and> \<not> (97 \<le> c \<and> c \<le> 122) \<and> c \<noteq> 32"
    by (rule matches_classes_all[OF m]) (rule gst_class_plain)
  have "remove_spaces s = s"
    using each by (simp add: remove_spaces_def filter_id_conv)
  moreover have "py_upper uc s = s"
    using each by (intro py_upper_plain) auto
  ultimately show ?thesis
    using m len by (auto simp: validate_gst_format_def re_match_cp_def)
qed

lemma validate_gst_format_length:
  "length (py_upper uc (remove_spaces s)) \<noteq> 15 \<Longrightarrow> \<not> validate_gst_format uc s"
  by (simp add: validate_gst_format_def Let_def)

lemma validate_gst_format_ascii_length:
  assumes "list_all (\<lambda>c. c < 128) s" and "length (remove_spaces s) \<noteq> 15"
  shows "\<not> validate_gst_format uc s"
proof -
  have "list_all (\<lambda>c. c < 128) (remove_spaces s)"
    using assms(1) by (simp add: remove_spaces_def list_all_iff)
  from py_upper_ascii_length[OF this] assms(2) show ?thesis
    by (intro validate_gst_format_length) simp
qed

lemmas gst_eval =
  validate_gst_number_def is_upper_def is_digit_def re_match_def
  matches_classes_def gst_pattern_def cls_19AZ_def cls_09AZ_def cls_Z_def

lemmas gst_format_eval =
  validate_gst_format_def code_points_def remove_spaces_def py_upper_def upper_cp_def
  re_match_cp_def matches_classes_def gst_format_pattern_def
  cp_digit_def cp_upper_def cp_19AZ_def cp_09AZ_def cp_Z_def sharp_s_table_def

text \<open>
  Claim C7, as stated, fails three times. A string of 16 characters whose spaces are
  the only excess is accepted, because the length is tested after spaces are removed.
  A string of the described shape whose thirteenth character is the digit 0 is rejected,
  because that position admits 1-9 and A-Z only. And a string of 14 characters with a
  sharp s among them is accepted, because the length is tested after the string is
  upper-cased, which turns the sharp s into SS.
\<close>

theorem validate_gst_format_counterexample:
  "length (code_points ''22AAAAA0000A1Z5 '') \<noteq> 15 \<and>
   validate_gst_format sharp_s_table (code_points ''22AAAAA0000A1Z5 '') \<and>
   length (code_points ''22AAAAA0000A0Z5'') = 15 \<and>
   \<not> validate_gst_format sharp_s_table (code_points ''22AAAAA0000A0Z5'') \<and>
   length (code_points ''22AAA'' @ [223] @ code_points ''0000A1Z5'') \<noteq> 15 \<and>
   validate_gst_format sharp_s_table (code_points ''22AAA'' @ [223] @ code_points ''0000A1Z5'')"
  by (simp add: gst_format_eval)

text \<open>
  Claim C7, amended: \<open>validate_gst_format\<close> returns true for every string made of
  2 digits, 5 uppercase letters, 4 digits, 1 uppercase letter, 1 character from
  1-9 or A-Z, the letter Z and 1 character from 0-9 or A-Z; and it returns false for
  every input that is not 15 characters long once its spaces are removed and it is
  upper-cased, which includes every ASCII input whose length without its spaces is
  not 15. This holds for every uppercase table beyond ASCII.
\<close>

theorem validate_gst_format_amended:
  "(matches_classes gst_format_pattern s \<longrightarrow> validate_gst_format uc s) \<and>
   (length (py_upper uc (remove_spaces t)) \<noteq> 15 \<longrightarrow> \<not> validate_gst_format uc t) \<and>
   (list_all (\<lambda>c. c < 128) v \<and> length (remove_spaces v) \<noteq> 15 \<longrightarrow>
      \<not> validate_gst_format uc v)"
  using validate_gst_format_canonical validate_gst_format_length
    validate_gst_format_ascii_length by blast

theorem validate_gst_format_amended_witness:
  "matches_classes gst_format_pattern (code_points ''24ABYFM2874M1ZD'') \<and>
   validate_gst_format sharp_s_table (code_points ''24ABYFM2874M1ZD'') \<and>
   length (py_upper sharp_s_table (remove_spaces [223, 32, 223])) \<noteq> 15 \<and>
   \<not> validate_gst_format sharp_s_table [223, 32, 223] \<and>
   list_all (\<lambda>c. c < 128) (code_points ''24 ABYFM 2874'') \<and>
   length (remove_spaces (code_points ''24 ABYFM 2874'')) \<noteq> 15 \<and>
   \<not> validate_gst_format sharp_s_table (code_points ''24 ABYFM 2874'')"
proof -
  have m: "matches_classes gst_format_pattern (code_points ''24ABYFM2874M1ZD'')"
    by (simp add: gst_format_eval)
  have l: "length (py_upper sharp_s_table (remove_spaces [223, 32, 223])) \<noteq> 15"
    by (simp add: gst_format_eval)
  have a: "list_all (\<lambda>c. c < 128) (code_points ''24 ABYFM 2874'') \<and>
    length (remove_spaces (code_points ''24 ABYFM 2874'')) \<noteq> 15"
    by (simp add: code_points_def remove_spaces_def)
  from validate_gst_format_amended[of "code_points ''24ABYFM2874M1ZD''" sharp_s_table
      "[223, 32, 223]" "code_points ''24 ABYFM 2874''"] m l a
  show ?thesis by blast
qed

section \<open>The feature vector\<close>

lemma features_length:
  "amount_features pf idata = Inr fa \<Longrightarrow> length fa = 3"
  by (auto simp: amount_features_def split: if_splits sum.splits)

lemma date_features_length: "length (date_features td idata) = 3"
  by (auto simp: date_features_def split: option.splits)

text \<open>
  Claim C3 says that \<open>extract_ml_features\<close> returns the vector of its 14 slots for
  every invoice. The function builds 3 + 3 + 8 = 14 entries and returns them only when there
  are at least 16: it returns \<open>None\<close> for every input, so no vector reaches the
  classifier.
\<close>

theorem extract_ml_features_none: "extract_ml_features pf td idata = None"
  by (auto simp: extract_ml_features_def Let_def quality_features_def date_features_length
      dest!: features_length split: sum.splits)

theorem extract_ml_features_none_witness:
  "extract_ml_features no_float (\<lambda>d. Some (0, 15, 1)) sample_invoice = None"
  using extract_ml_features_none[of no_float "\<lambda>d. Some (0, 15, 1)" sample_invoice] .

section \<open>The compliance score\<close>

lemma fadd_small:
  "fadd 0 1 = 1" "fadd 1 1 = 2" "fadd 2 1 = 3" "fadd 3 1 = 4" "fadd 4 1 = 5"
  "fadd 5 1 = 6" "fadd 6 1 = 7" "fadd 7 (1 / 2) = 15 / 2" "fadd (15 / 2) (1 / 2) = 8"
  "fadd 8 (1 / 2) = 17 / 2" "fadd (17 / 2) 1 = 19 / 2" "fadd (19 / 2) 1 = 21 / 2"
  "fadd (21 / 2) 1 = 23 / 2" "fadd (23 / 2) 1 = 25 / 2"
  by (simp_all add: fl_eval)

lemma score_125:
  "fdiv (25 / 2) 12 = 4691249611844267 / 4503599627370496"
  "fmul (4691249611844267 / 4503599627370496) 100 = 7330077518506667 / 70368744177664"
  by (simp_all add: fl_eval)

lemma fl_25000: "fl 25000 = 25000" by (simp add: fl_eval)

lemma sample_arith: "overall_accurate (check_arithmetic_accuracy no_float sample_invoice)"
proof -
  have "\<bar>fl 25000\<bar> \<le> 2 ^ 51 + 1" by (simp add: fl_25000)
  from reconstruct_close[OF this] show ?thesis
    by (simp add: check_arithmetic_accuracy_def sample_invoice_def Let_def)
qed

lemma sample_gst: "map validate_gst_number (gst_numbers sample_invoice) = [True, True, True]"
  by (simp add: sample_invoice_def gst_eval)

lemma sample_hsn: "hsn_validation (enhanced_data.hsn_sac_codes sample_enhanced) = Some (''8471'', 18)"
  by (simp add: sample_enhanced_def HSN_SAC_DATABASE_def)

lemma sample_prices: "analyze_market_prices no_float sample_enhanced sample_invoice = Inr []"
  by (simp add: analyze_market_prices_def sample_enhanced_def)

lemma sample_basic: "basic_fields sample_invoice = [True, True, True, True, True]"
  by (simp add: basic_fields_def sample_invoice_def truthy_str_def)

text \<open>
  Claim C1 says that the compliance score lies in [0, 100] and that the half points of
  the GST numbers never lift the points above 12. For the sample invoice, which has every
  field, an HSN code of the table and three well-formed GST numbers, the function counts
  12.5 points of 12 and returns a score above 100.
\<close>

theorem compliance_score_above_100:
  "\<exists>r. process_complete_compliance no_float sample_invoice sample_enhanced None = Inr r \<and>
       checks_passed r = 25 / 2 \<and> total_checks r = 12 \<and>
       compliance_score r = 7330077518506667 / 70368744177664 \<and> 100 < compliance_score r"
proof -
  have enh: "enhanced_data.hsn_sac_codes sample_enhanced \<noteq> []" by (simp add: sample_enhanced_def)
  have ocr: "80 \<le> ocr_confidence sample_invoice" by (simp add: sample_invoice_def)
  show ?thesis
    unfolding process_complete_compliance_def Let_def sample_gst sample_hsn sample_prices sample_basic
    using enh ocr sample_arith
    by (simp add: bump_def fadd_small score_125)
qed

theorem compliance_score_above_100_witness:
  "\<exists>r. process_complete_compliance no_float sample_invoice sample_enhanced None = Inr r \<and>
       total_checks r < checks_passed r"
  using compliance_score_above_100 by auto

section \<open>The arithmetic check\<close>

lemma arith_1e17:
  "\<not> overall_accurate (check_arithmetic_accuracy pf (idata\<lparr>total_amount := Num 100000000000000000\<rparr>))"
proof -
  have a: "fl 100000000000000000 = 100000000000000000" by (simp add: fl_eval)
  have b: "fdiv 100000000000000000 (5314247560297185 / 4503599627370496) = 84745762711864416"
    by (simp add: fl_eval)
  have g: "fmul 84745762711864416 (3242591731706757 / 18014398509481984) = 15254237288135594"
    by (simp add: fl_eval)
  have t: "fadd 84745762711864416 15254237288135594 = 100000000000000016"
    by (simp add: fl_eval)
  have d: "fsub 100000000000000000 100000000000000016 = - 16"
    by (simp add: fl_eval)
  show ?thesis
    unfolding check_arithmetic_accuracy_def Let_def
    by (simp add: fl_118n fl_18n a b g t d)
qed

text \<open>
  Claim C10, as stated, fails for a large total: at 10^17 the three rounded operations
  return a total that is 16 away from the amount, and \<open>overall_accurate\<close> is false.
\<close>

theorem check_arithmetic_accuracy_counterexample:
  "(0::real) < 100000000000000000 \<and>
   \<not> overall_accurate (check_arithmetic_accuracy no_float
        (sample_invoice\<lparr>total_amount := Num 100000000000000000\<rparr>))"
  using arith_1e17 by simp

lemma fl_bound:
  assumes "0 < r" "r \<le> 2 ^ 51"
  shows "\<bar>fl r\<bar> \<le> 2 ^ 51 + 1"
proof -
  have "\<bar>fl r - r\<bar> \<le> \<bar>r\<bar> / 9007199254740992 + 1 / 1000" by (rule fl_err_coarse)
  with assms show ?thesis by simp
qed

text \<open>
  The function removes the commas of a string before it reads it: a total written with
  commas that is a number without them, in particular one up to 2^51, is accepted.
\<close>

lemma comma_total_accepted:
  assumes "total_amount idata = Str s" and "s \<noteq> []"
    and "pf (remove_char CHR '','' s) = Some v" and "\<bar>v\<bar> \<le> 2 ^ 51"
  shows "overall_accurate (check_arithmetic_accuracy pf idata)"
proof -
  from assms(4) have "\<bar>v\<bar> \<le> 2 ^ 51 + 1" by simp
  from reconstruct_close[OF this] assms(1-3) show ?thesis
    by (simp add: check_arithmetic_accuracy_def Let_def)
qed

text \<open>
  Claim C10, amended: for every invoice whose total amount is a positive number up to
  2^51 (about 2.25e15), \<open>check_arithmetic_accuracy\<close> reports \<open>overall_accurate\<close>
  true, whatever the tax arithmetic of the invoice; for a missing total, for \<open>None\<close>,
  for the number zero, for the empty string and for a string that \<open>float\<close> rejects
  once its commas are removed it reports false.
\<close>

theorem check_arithmetic_accuracy_amended:
  "(total_amount idata = Num r \<and> 0 < r \<and> r \<le> 2 ^ 51 \<longrightarrow>
      overall_accurate (check_arithmetic_accuracy pf idata)) \<and>
   (total_amount jdata = Absent \<or> total_amount jdata = PyNone \<or> total_amount jdata = Num 0 \<or>
    total_amount jdata = Str [] \<or>
    (total_amount jdata = Str s \<and> pf (remove_char CHR '','' s) = None) \<longrightarrow>
      \<not> overall_accurate (check_arithmetic_accuracy pf jdata))"
proof (intro conjI impI)
  assume h: "total_amount idata = Num r \<and> 0 < r \<and> r \<le> 2 ^ 51"
  then have "\<bar>fl r\<bar> \<le> 2 ^ 51 + 1" by (intro fl_bound) auto
  from reconstruct_close[OF this] h
  show "overall_accurate (check_arithmetic_accuracy pf idata)"
    by (simp add: check_arithmetic_accuracy_def Let_def)
next
  assume "total_amount jdata = Absent \<or> total_amount jdata = PyNone \<or> total_amount jdata = Num 0 \<or>
    total_amount jdata = Str [] \<or>
    (total_amount jdata = Str s \<and> pf (remove_char CHR '','' s) = None)"
  then show "\<not> overall_accurate (check_arithmetic_accuracy pf jdata)"
    by (auto simp: check_arithmetic_accuracy_def Let_def)
qed

theorem check_arithmetic_accuracy_amended_witness:
  "total_amount sample_invoice = Num 25000 \<and> (0::real) < 25000 \<and> (25000::real) \<le> 2 ^ 51 \<and>
   overall_accurate (check_arithmetic_accuracy thousand_float sample_invoice) \<and>
   total_amount (sample_invoice\<lparr>total_amount := Str ''1,2x''\<rparr>) = Str ''1,2x'' \<and>
   thousand_float (remove_char CHR '','' ''1,2x'') = None \<and>
   \<not> overall_accurate
       (check_arithmetic_accuracy thousand_float (sample_invoice\<lparr>total_amount := Str ''1,2x''\<rparr>))"
proof -
  have 1: "total_amount sample_invoice = Num 25000 \<and> (0::real) < 25000 \<and> (25000::real) \<le> 2 ^ 51"
    by (simp add: sample_invoice_def)
  have 2: "total_amount (sample_invoice\<lparr>total_amount := Str ''1,2x''\<rparr>) = Str ''1,2x'' \<and>
    thousand_float (remove_char CHR '','' ''1,2x'') = None"
    by (simp add: thousand_float_def remove_char_def)
  from check_arithmetic_accuracy_amended[of sample_invoice 25000 thousand_float
      "sample_invoice\<lparr>total_amount := Str ''1,2x''\<rparr>" "''1,2x''"] 1 2
  show ?thesis by blast
qed

text \<open>
  The total \<open>1,000\<close>, a string that \<open>float\<close> rejects as it stands, is read as 1000
  and accepted.
\<close>

lemma comma_total_example:
  "thousand_float ''1,000'' = None \<and>
   overall_accurate
     (check_arithmetic_accuracy thousand_float (sample_invoice\<lparr>total_amount := Str ''1,000''\<rparr>))"
proof -
  have "overall_accurate
     (check_arithmetic_accuracy thousand_float (sample_invoice\<lparr>total_amount := Str ''1,000''\<rparr>))"
    by (rule comma_total_accepted[of _ "''1,000''" _ 1000])
       (simp_all add: thousand_float_def remove_char_def)
  then show ?thesis by (simp add: thousand_float_def)
qed

section \<open>The vendor aggregates\<close>


lemma find_append_Some: "find P xs = Some v \<Longrightarrow> find P (xs @ ys) = Some v"
  by (induction xs) (auto split: if_splits)




lemma storable_store:
  "storable pf d \<Longrightarrow> \<exists>i s1. store_invoice pf t d s = Inr (i, s1)"
  by (auto simp: storable_def store_invoice_def Let_def split: sum.splits)

lemma store_invoice_Inr:
  assumes "store_invoice pf now idata s = Inr (i, s1)"
  shows "py_float pf (get0 (total_amount idata)) = Inr (amount_of pf idata)"
    and "s1 = update_vendor_stats now (invoice_doc_of (next_oid s) now idata (amount_of pf idata) (conf_of idata))
                (s\<lparr>invoices := invoices s @ [invoice_doc_of (next_oid s) now idata (amount_of pf idata) (conf_of idata)],
                   next_oid := next_oid s + 1\<rparr>)"
  using assms
  by (auto simp: store_invoice_def amount_of_def conf_of_def to_float_def Let_def
      split: sum.splits if_splits)




lemma store_all_total:
  "list_all (\<lambda>(t, d). storable pf d) batch \<Longrightarrow> \<exists>s1. store_all pf batch s = Inr s1"
proof (induction batch arbitrary: s)
  case Nil
  then show ?case by simp
next
  case (Cons x batch)
  obtain t d where x: "x = (t, d)" by (cases x)
  with Cons.prems have "storable pf d" by simp
  from storable_store[OF this] obtain i s1 where "store_invoice pf t d s = Inr (i, s1)"
    by blast
  with Cons.IH[of s1] Cons.prems x show ?case by auto
qed




lemma fl_amounts:
  "fl 10000 = 10000" "fl 35000 = 35000" "fl 45000 = 45000" "fl 95 = 95"
  "fadd 10000 35000 = 45000" "fdiv 45000 2 = 22500" "fmul 22500 3 = 67500"
  by (simp_all add: fl_eval)





section \<open>The anomaly run\<close>

lemma hsn_price_loop_total:
  "py_float pf (get0 (total_amount idata)) = Inr a \<Longrightarrow>
   \<exists>r. hsn_price_loop pf s idata i codes = Inr r"
  by (induction codes) (auto simp: Let_def)

lemma check_unusual_amount_total:
  "py_float pf (get0 (total_amount idata)) = Inr a \<Longrightarrow>
   \<exists>r. check_unusual_amount pf s idata = Inr r"
  by (auto simp: check_unusual_amount_def split: option.splits list.splits)

lemma detect_anomalies_missing:
  assumes "py_float pf (get0 (total_amount idata)) = Inr a"
  shows "\<exists>found s2. detect_anomalies pf now idata i s = Inr (found, s2) \<and>
           set (check_missing_gst idata) \<subseteq> set found \<and> vendors s2 = vendors s"
proof -
  from check_unusual_amount_total[OF assms] obtain u where
    u: "check_unusual_amount pf s idata = Inr u" by blast
  from hsn_price_loop_total[OF assms] obtain d where
    d: "check_hsn_price pf s idata i = Inr d"
    unfolding check_hsn_price_def by blast
  show ?thesis by (auto simp: detect_anomalies_def Let_def u d)
qed

text \<open>
  Claim C8: an invoice with an empty list of GST numbers is stored without any change to
  the vendor collection, and its anomaly run returns a list that contains a
  \<open>MISSING_GST\<close> anomaly (and leaves the vendor collection alone as well).
\<close>

theorem missing_gst_invoice:
  assumes "gst_numbers idata = []" and "storable pf idata"
  shows "\<exists>i s1 found s2.
     store_invoice pf now idata s = Inr (i, s1) \<and> vendors s1 = vendors s \<and>
     detect_anomalies pf later idata i s1 = Inr (found, s2) \<and>
     \<lparr>atype = ''MISSING_GST'', anomaly.severity = ''HIGH'', anomaly.relatedInvoiceId = None\<rparr>
       \<in> set found \<and> vendors s2 = vendors s"
proof -
  from assms(2) obtain a where a: "py_float pf (get0 (total_amount idata)) = Inr a"
    by (auto simp: storable_def split: sum.splits)
  from storable_store[OF assms(2)] obtain i s1 where
    st: "store_invoice pf now idata s = Inr (i, s1)" by blast
  have v: "vendors s1 = vendors s"
    unfolding store_invoice_Inr(2)[OF st] using assms(1)
    by (simp add: update_vendor_stats_def invoice_doc_of_def)
  from detect_anomalies_missing[OF a, of later i s1] obtain found s2 where
    d: "detect_anomalies pf later idata i s1 = Inr (found, s2)"
    and m: "set (check_missing_gst idata) \<subseteq> set found" and v2: "vendors s2 = vendors s1"
    by blast
  from assms(1) have "\<lparr>atype = ''MISSING_GST'', anomaly.severity = ''HIGH'', anomaly.relatedInvoiceId = None\<rparr>
       \<in> set (check_missing_gst idata)" by (simp add: check_missing_gst_def)
  with st v d m v2 show ?thesis by auto
qed

theorem missing_gst_invoice_witness:
  "gst_numbers invoice_b = [] \<and> storable no_float invoice_b \<and>
   (\<exists>i s1 found s2.
      store_invoice no_float 2 invoice_b empty_db = Inr (i, s1) \<and>
      vendors s1 = vendors empty_db \<and>
      detect_anomalies no_float 3 invoice_b i s1 = Inr (found, s2) \<and>
      \<lparr>atype = ''MISSING_GST'', anomaly.severity = ''HIGH'', anomaly.relatedInvoiceId = None\<rparr>
        \<in> set found \<and> vendors s2 = vendors empty_db)"
proof -
  have h1: "gst_numbers invoice_b = []" by (simp add: invoice_b_def)
  have h2: "storable no_float invoice_b"
    by (simp add: storable_def invoice_b_def to_float_def fl_amounts)
  from missing_gst_invoice[OF h1 h2, of 2 empty_db 3] h1 h2 show ?thesis by simp
qed

section \<open>The unusual amount\<close>

text \<open>
  Claim C2 says that, with invoice A (10000, Acme) stored and then invoice B (35000, Acme,
  no GST number) stored, the anomaly run of B reports \<open>MISSING_GST\<close> and
  \<open>UNUSUAL_AMOUNT\<close>, the average for Acme being 10000. The run starts after B is
  stored and \<open>vendors_stats\<close> does not leave B out: the average is 22500, three times
  that is 67500, and the run reports \<open>MISSING_GST\<close> alone.
\<close>

theorem unusual_amount_not_raised:
  "\<exists>i1 s1 i2 s2 found s3.
     store_invoice no_float 1 invoice_a empty_db = Inr (i1, s1) \<and>
     store_invoice no_float 2 invoice_b s1 = Inr (i2, s2) \<and>
     map avgAmount (vendors_stats s2 ''Acme'') = [22500] \<and>
     detect_anomalies no_float 3 invoice_b i2 s2 = Inr (found, s3) \<and>
     map atype found = [''MISSING_GST'']"
  by (simp add: store_invoice_def invoice_doc_of_def update_vendor_stats_def Let_def
      empty_db_def invoice_a_def invoice_b_def vendors_stats_def detect_anomalies_def
      check_duplicate_def check_missing_gst_def check_invalid_gst_def primary_gst_def
      check_gst_vendor_mismatch_def check_unusual_amount_def check_invalid_hsn_def
      check_rate_mismatch_def check_hsn_price_def to_float_def fl_amounts)

theorem unusual_amount_not_raised_witness:
  "\<exists>i2 s2 found s3.
     store_invoice no_float 2 invoice_b
       (snd (projr (store_invoice no_float 1 invoice_a empty_db))) = Inr (i2, s2) \<and>
     detect_anomalies no_float 3 invoice_b i2 s2 = Inr (found, s3) \<and>
     ''UNUSUAL_AMOUNT'' \<notin> set (map atype found)"
proof -
  from unusual_amount_not_raised obtain i1 s1 i2 s2 found s3 where
    a: "store_invoice no_float 1 invoice_a empty_db = Inr (i1, s1)" and
    b: "store_invoice no_float 2 invoice_b s1 = Inr (i2, s2)" and
    d: "detect_anomalies no_float 3 invoice_b i2 s2 = Inr (found, s3)" and
    m: "map atype found = [''MISSING_GST'']" by (elim exE conjE)
  have "''UNUSUAL_AMOUNT'' \<notin> set (map atype found)" unfolding m by simp
  with a b d show ?thesis by auto
qed

section \<open>Duplicate invoice numbers\<close>

lemma update_vendor_stats_frame:
  "invoices (update_vendor_stats now doc s) = invoices s"
  "next_oid (update_vendor_stats now doc s) = next_oid s"
  "anomalies (update_vendor_stats now doc s) = anomalies s"
  by (auto simp: update_vendor_stats_def split: option.splits)

lemma store_invoice_invoices:
  assumes "store_invoice pf now idata s = Inr (i, s1)"
  shows "i = OidStr (next_oid s)"
    and "invoices s1 = invoices s @ [invoice_doc_of (next_oid s) now idata (amount_of pf idata) (conf_of idata)]"
    and "next_oid s1 = Suc (next_oid s)"
  using assms
  by (auto simp: store_invoice_def Let_def amount_of_def conf_of_def to_float_def
      update_vendor_stats_frame invoice_doc_of_def split: sum.splits if_splits)

lemma store_all_invoices:
  "store_all pf batch s = Inr s1 \<Longrightarrow>
   next_oid s \<le> next_oid s1 \<and>
   (\<exists>docs. invoices s1 = invoices s @ docs \<and>
      (\<forall>d \<in> set docs. \<exists>(t, x) \<in> set batch. invoice_doc.invoiceNumber d = invoice_number x))"
proof (induction batch arbitrary: s)
  case Nil
  then show ?case by simp
next
  case (Cons x batch)
  obtain t d where x: "x = (t, d)" by (cases x)
  from Cons.prems x obtain i s2 where
    st: "store_invoice pf t d s = Inr (i, s2)" and more: "store_all pf batch s2 = Inr s1"
    by (auto split: sum.splits)
  from Cons.IH[OF more] obtain docs where
    n: "next_oid s2 \<le> next_oid s1" and
    docs: "invoices s1 = invoices s2 @ docs"
      "\<forall>d \<in> set docs. \<exists>(t, x) \<in> set batch. invoice_doc.invoiceNumber d = invoice_number x"
    by blast
  let ?doc = "invoice_doc_of (next_oid s) t d (amount_of pf d) (conf_of d)"
  have "invoices s1 = invoices s @ (?doc # docs)"
    using docs(1) store_invoice_invoices(2)[OF st] by simp
  moreover have "\<forall>e \<in> set (?doc # docs). \<exists>(t, x) \<in> set (x # batch).
      invoice_doc.invoiceNumber e = invoice_number x"
    using docs(2) x by (auto simp: invoice_doc_of_def)
  moreover have "next_oid s \<le> next_oid s1"
    using n store_invoice_invoices(3)[OF st] by simp
  ultimately show ?case by blast
qed

lemma find_append_split:
  "find P (xs @ ys) = (case find P xs of None \<Rightarrow> find P ys | Some x \<Rightarrow> Some x)"
  by (induction xs) auto

lemma find_None_all: "(\<forall>x \<in> set xs. \<not> P x) \<Longrightarrow> find P xs = None"
  by (induction xs) auto

lemma hsn_price_loop_type:
  "hsn_price_loop pf s idata i codes = Inr r \<Longrightarrow>
   length r \<le> 1 \<and> (\<forall>x \<in> set r. atype x = ''HSN_PRICE_DEVIATION'')"
  by (induction codes) (auto simp: Let_def split: if_splits sum.splits)

lemma check_unusual_amount_type:
  "check_unusual_amount pf s idata = Inr r \<Longrightarrow> \<forall>x \<in> set r. atype x = ''UNUSUAL_AMOUNT''"
  by (auto simp: check_unusual_amount_def split: option.splits list.splits if_splits sum.splits)

lemma filter_none: "(\<forall>x \<in> set xs. \<not> P x) \<Longrightarrow> filter P xs = []"
  by (induction xs) auto

lemma other_checks_no_duplicate:
  "filter (\<lambda>x. atype x = ''DUPLICATE_INVOICE'') (check_missing_gst idata) = []"
  "filter (\<lambda>x. atype x = ''DUPLICATE_INVOICE'') (check_invalid_gst idata) = []"
  "filter (\<lambda>x. atype x = ''DUPLICATE_INVOICE'') (check_gst_vendor_mismatch s idata q) = []"
  "filter (\<lambda>x. atype x = ''DUPLICATE_INVOICE'') (check_invalid_hsn idata) = []"
  "filter (\<lambda>x. atype x = ''DUPLICATE_INVOICE'') (check_rate_mismatch idata) = []"
  by (auto simp: check_missing_gst_def check_invalid_gst_def check_gst_vendor_mismatch_def
      check_invalid_hsn_def check_rate_mismatch_def
      split: option.splits list.splits)

lemma detect_anomalies_duplicates:
  assumes "py_float pf (get0 (total_amount idata)) = Inr a"
  shows "\<exists>found s2. detect_anomalies pf now idata (OidStr n) s = Inr (found, s2) \<and>
           filter (\<lambda>x. atype x = ''DUPLICATE_INVOICE'') found = check_duplicate s idata (QOid n)"
proof -
  from check_unusual_amount_total[OF assms] obtain u where
    u: "check_unusual_amount pf s idata = Inr u" by blast
  from hsn_price_loop_total[OF assms] obtain d where
    d: "check_hsn_price pf s idata (OidStr n) = Inr d"
    unfolding check_hsn_price_def by blast
  have fu: "filter (\<lambda>x. atype x = ''DUPLICATE_INVOICE'') u = []"
    using check_unusual_amount_type[OF u] by (intro filter_none) auto
  have fd: "filter (\<lambda>x. atype x = ''DUPLICATE_INVOICE'') d = []"
    using hsn_price_loop_type[OF d[unfolded check_hsn_price_def]] by (intro filter_none) auto
  have fc: "filter (\<lambda>x. atype x = ''DUPLICATE_INVOICE'') (check_duplicate s idata (QOid n))
            = check_duplicate s idata (QOid n)"
    by (simp add: check_duplicate_def split: option.splits)
  show ?thesis
    by (simp add: detect_anomalies_def Let_def u d fu fd fc other_checks_no_duplicate)
qed

text \<open>
  Claim C5: invoice A is stored in a store that holds no invoice of its number, other
  invoices of other numbers may follow, and invoice B of the same number is stored. The
  two ids differ, and the anomaly run of B returns exactly one \<open>DUPLICATE_INVOICE\<close>
  anomaly; its severity is \<open>HIGH\<close> and its related invoice is A.
\<close>

theorem duplicate_invoice_reported:
  assumes first: "store_invoice pf t1 a s0 = Inr (ia, s1)"
    and between: "store_all pf others s1 = Inr s2"
    and second: "store_invoice pf t2 b s2 = Inr (ib, s3)"
    and same: "invoice_number b = invoice_number a"
    and fresh: "\<forall>d \<in> set (invoices s0). invoice_doc.invoiceNumber d \<noteq> invoice_number a"
    and differ: "\<forall>(t, x) \<in> set others. invoice_number x \<noteq> invoice_number a"
  shows "ia \<noteq> ib \<and>
    (\<exists>found s4. detect_anomalies pf t3 b ib s3 = Inr (found, s4) \<and>
       filter (\<lambda>x. atype x = ''DUPLICATE_INVOICE'') found =
         [\<lparr>atype = ''DUPLICATE_INVOICE'', anomaly.severity = ''HIGH'',
           anomaly.relatedInvoiceId = Some ia\<rparr>])"
proof -
  let ?da = "invoice_doc_of (next_oid s0) t1 a (amount_of pf a) (conf_of a)"
  let ?db = "invoice_doc_of (next_oid s2) t2 b (amount_of pf b) (conf_of b)"
  note A = store_invoice_invoices[OF first]
  note B = store_invoice_invoices[OF second]
  from store_all_invoices[OF between] obtain docs where
    n: "next_oid s1 \<le> next_oid s2" and
    docs: "invoices s2 = invoices s1 @ docs"
      "\<forall>d \<in> set docs. \<exists>(t, x) \<in> set others. invoice_doc.invoiceNumber d = invoice_number x"
    by blast
  have lt: "next_oid s0 < next_oid s2" using n A(3) by simp
  then have ne: "ia \<noteq> ib" using A(1) B(1) by simp
  let ?P = "\<lambda>d. invoice_doc.invoiceNumber d = invoice_number b \<and> ne_id (doc_id d) (QOid (next_oid s2))"
  have inv3: "invoices s3 = invoices s0 @ ?da # (docs @ [?db])"
    using A(2) B(2) docs(1) by simp
  have "find ?P (invoices s0) = None"
    using fresh same by (intro find_None_all) auto
  moreover have "?P ?da" using same lt by (simp add: invoice_doc_of_def)
  ultimately have f: "find ?P (invoices s3) = Some ?da"
    unfolding inv3 by (simp add: find_append_split)
  have dup: "check_duplicate s3 b (QOid (next_oid s2)) =
     [\<lparr>atype = ''DUPLICATE_INVOICE'', anomaly.severity = ''HIGH'',
       anomaly.relatedInvoiceId = Some ia\<rparr>]"
    unfolding check_duplicate_def f using A(1) by (simp add: invoice_doc_of_def)
  from store_invoice_Inr(1)[OF second] detect_anomalies_duplicates[of pf b _ t3 "next_oid s2" s3]
  obtain found s4 where "detect_anomalies pf t3 b (OidStr (next_oid s2)) s3 = Inr (found, s4)"
    "filter (\<lambda>x. atype x = ''DUPLICATE_INVOICE'') found = check_duplicate s3 b (QOid (next_oid s2))"
    by blast
  with dup B(1) ne show ?thesis by auto
qed

theorem duplicate_invoice_reported_witness:
  "\<exists>ia s1 s2 ib s3.
     store_invoice no_float 1 invoice_a empty_db = Inr (ia, s1) \<and>
     store_all no_float [(2, invoice_b)] s1 = Inr s2 \<and>
     store_invoice no_float 3 (invoice_a\<lparr>total_amount := Num 35000\<rparr>) s2 = Inr (ib, s3) \<and>
     invoice_number (invoice_a\<lparr>total_amount := Num 35000\<rparr>) = invoice_number invoice_a \<and>
     ia \<noteq> ib \<and>
     (\<exists>found s4.
        detect_anomalies no_float 4 (invoice_a\<lparr>total_amount := Num 35000\<rparr>) ib s3
          = Inr (found, s4) \<and>
        filter (\<lambda>x. atype x = ''DUPLICATE_INVOICE'') found =
          [\<lparr>atype = ''DUPLICATE_INVOICE'', anomaly.severity = ''HIGH'',
            anomaly.relatedInvoiceId = Some ia\<rparr>])"
proof -
  let ?b = "invoice_a\<lparr>total_amount := Num 35000\<rparr>"
  have sa: "storable no_float invoice_a" "storable no_float ?b"
    by (simp_all add: storable_def invoice_a_def to_float_def fl_amounts)
  from storable_store[OF sa(1)] obtain ia s1 where
    first: "store_invoice no_float 1 invoice_a empty_db = Inr (ia, s1)" by blast
  have "list_all (\<lambda>(t, d). storable no_float d) [(2, invoice_b)]"
    by (simp add: storable_def invoice_b_def to_float_def fl_amounts)
  from store_all_total[OF this] obtain s2 where
    between: "store_all no_float [(2, invoice_b)] s1 = Inr s2" by blast
  from storable_store[OF sa(2)] obtain ib s3 where
    second: "store_invoice no_float 3 ?b s2 = Inr (ib, s3)" by blast
  have same: "invoice_number ?b = invoice_number invoice_a" by simp
  have fresh: "\<forall>d \<in> set (invoices empty_db).
      invoice_doc.invoiceNumber d \<noteq> invoice_number invoice_a"
    by (simp add: empty_db_def)
  have differ: "\<forall>(t, x) \<in> set [(2, invoice_b)]. invoice_number x \<noteq> invoice_number invoice_a"
    by (simp add: invoice_a_def invoice_b_def)
  from duplicate_invoice_reported[OF first between second same fresh differ, of 4]
    first between second same
  show ?thesis by blast
qed

section \<open>The HSN price deviation\<close>

lemma similar_invoices_bound:
  "length (similar_invoices s h i) \<le> 10"
  "set (similar_invoices s h i) \<subseteq> {d \<in> set (invoices s). h \<in> set (hsnCodes d)}"
  by (auto simp: similar_invoices_def dest: in_set_takeD)

lemma fl_hsn: "fl 0 = 0" "fl 100 = 100" "fl 95 = 95" "fl 160 = 160" "fl 1000 = 1000"
  "fadd 0 100 = 100" "fadd 100 100 = 200" "fadd 200 100 = 300"
  "fadd 200 1000 = 1200" "fdiv 1200 3 = 400" "fmul 400 (1 / 2) = 200" "fsub 1000 400 = 600"
  "fadd 300 160 = 460" "fdiv 460 4 = 115" "fmul 115 (1 / 2) = 115 / 2" "fsub 160 115 = 45"
  "fmul 100 (1 / 2) = 50" "fsub 160 100 = 60"
  "fl 1200 = 1200" "fmul 400 3 = 1200" "fl 460 = 460" "fmul 115 3 = 345"
  by (simp_all add: fl_eval)

lemmas store_eval = store_invoice_def invoice_doc_of_def update_vendor_stats_def Let_def
  empty_db_def to_float_def

text \<open>
  Claim C6 says that the check of one HSN code looks at other stored invoices, the
  invoice under evaluation left out, runs only when at least 3 of them exist, and
  compares the current amount with their mean. The anomaly run starts after the invoice
  is stored, and the query of block 6 passes the id as a string where the queries of
  blocks 1 and 4 pass the \<open>ObjectId\<close>: no document is left out, and the invoice under
  evaluation is among the invoices found.

  First, two other invoices of the code are stored, with the amount 100, and then the
  invoice under evaluation, with the amount 1000. There are 2 other invoices, so the
  check should not run; the query finds 3, and a deviation is reported.

  Second, three other invoices of the code are stored, with the amount 100, and then the
  invoice under evaluation, with the amount 160, which is 60% above their mean. The
  query finds 4 invoices, their mean is 115, and no deviation is reported.
\<close>

theorem hsn_check_counts_current_invoice:
  "(\<exists>s2 i s3.
      store_all no_float [(1, hsn_invoice ''H-1'' 100), (2, hsn_invoice ''H-2'' 100)] empty_db
        = Inr s2 \<and>
      store_invoice no_float 3 (hsn_invoice ''H-3'' 1000) s2 = Inr (i, s3) \<and>
      length (filter (\<lambda>d. ''8471'' \<in> set (hsnCodes d) \<and> OidStr (doc_id d) \<noteq> i) (invoices s3)) = 2 \<and>
      length (similar_invoices s3 ''8471'' i) = 3 \<and>
      check_hsn_price no_float s3 (hsn_invoice ''H-3'' 1000) i = Inr [price_deviation] \<and>
      (\<exists>s4. detect_anomalies no_float 4 (hsn_invoice ''H-3'' 1000) i s3
              = Inr ([price_deviation], s4))) \<and>
   (\<exists>s3 i s4.
      store_all no_float
        [(1, hsn_invoice ''H-1'' 100), (2, hsn_invoice ''H-2'' 100), (3, hsn_invoice ''H-3'' 100)]
        empty_db = Inr s3 \<and>
      store_invoice no_float 4 (hsn_invoice ''H-4'' 160) s3 = Inr (i, s4) \<and>
      map invoice_doc.totalAmount
        (filter (\<lambda>d. ''8471'' \<in> set (hsnCodes d) \<and> OidStr (doc_id d) \<noteq> i) (invoices s4))
        = [100, 100, 100] \<and>
      hsn_deviates 160 100 \<and>
      map invoice_doc.totalAmount (similar_invoices s4 ''8471'' i) = [100, 100, 100, 160] \<and>
      check_hsn_price no_float s4 (hsn_invoice ''H-4'' 160) i = Inr [] \<and>
      (\<exists>s5. detect_anomalies no_float 5 (hsn_invoice ''H-4'' 160) i s4 = Inr ([], s5)))"
  by (simp add: store_eval hsn_invoice_def check_hsn_price_def similar_invoices_def
      hsn_deviates_def py_sum_def fl_hsn price_deviation_def detect_anomalies_def
      check_duplicate_def check_missing_gst_def check_invalid_gst_def primary_gst_def
      check_gst_vendor_mismatch_def check_unusual_amount_def vendors_stats_def
      check_invalid_hsn_def check_rate_mismatch_def)

theorem hsn_check_counts_current_invoice_witness:
  "\<exists>s3 i s4.
      store_all no_float
        [(1, hsn_invoice ''H-1'' 100), (2, hsn_invoice ''H-2'' 100), (3, hsn_invoice ''H-3'' 100)]
        empty_db = Inr s3 \<and>
      store_invoice no_float 4 (hsn_invoice ''H-4'' 160) s3 = Inr (i, s4) \<and>
      length (similar_invoices s4 ''8471'' i) = 4 \<and>
      check_hsn_price no_float s4 (hsn_invoice ''H-4'' 160) i = Inr []"
proof -
  from hsn_check_counts_current_invoice obtain s3 i s4 where
    a: "store_all no_float
        [(1, hsn_invoice ''H-1'' 100), (2, hsn_invoice ''H-2'' 100), (3, hsn_invoice ''H-3'' 100)]
        empty_db = Inr s3" and
    b: "store_invoice no_float 4 (hsn_invoice ''H-4'' 160) s3 = Inr (i, s4)" and
    m: "map invoice_doc.totalAmount (similar_invoices s4 ''8471'' i) = [100, 100, 100, 160]" and
    c: "check_hsn_price no_float s4 (hsn_invoice ''H-4'' 160) i = Inr []"
    by (elim exE conjE)
  from m have "length (map invoice_doc.totalAmount (similar_invoices s4 ''8471'' i)) = 4"
    by simp
  then have "length (similar_invoices s4 ''8471'' i) = 4" by simp
  with a b c show ?thesis by blast
qed

section \<open>The anomaly trends\<close>

lemma day_of_step: "day_of (c + us_per_day) = day_of c + 1"
  by (simp add: day_of_def us_per_day_def)

lemma fill_dates_steps:
  "e = c + int n * us_per_day \<Longrightarrow> e + us_per_day \<le> dt_max \<Longrightarrow>
   fill_dates m c e = Inr (map (entry_of m) [day_of c .. day_of c + int n])"
proof (induction n arbitrary: c)
  case 0
  then have ce: "c = e" by simp
  have stop: "fill_dates m (e + us_per_day) e = Inr []"
    by (subst fill_dates.simps) (simp add: us_per_day_def)
  have "fill_dates m e e = Inr [entry_of m (day_of e)]"
    using 0(2) by (subst fill_dates.simps) (simp add: stop)
  then show ?case by (simp add: ce)
next
  case (Suc n)
  have pos: "0 < us_per_day" by (simp add: us_per_day_def)
  have e': "e = (c + us_per_day) + int n * us_per_day" using Suc.prems(1) by (simp add: algebra_simps)
  have le: "c \<le> e" using Suc.prems(1) pos by simp
  have "c + us_per_day \<le> e" using e' pos by simp
  then have no: "\<not> dt_max < c + us_per_day" using Suc.prems(2) pos by linarith
  have up: "[day_of c .. day_of c + (1 + int n)] = day_of c # [day_of c + 1 .. day_of c + 1 + int n]"
    by (subst upto.simps) (simp add: add.commute add.left_commute)
  show ?case
    using le no Suc.IH[OF e' Suc.prems(2)]
    by (subst fill_dates.simps) (simp add: day_of_step up)
qed

lemma add_result_dom: "dom (add_result m r) = insert (fst (fst r)) (dom m)"
  by (simp add: add_result_def Let_def)

lemma foldl_add_result_dom: "dom (foldl add_result m rs) = dom m \<union> (\<lambda>r. fst (fst r)) ` set rs"
  by (induction rs arbitrary: m) (auto simp: add_result_dom)

lemma add_result_date:
  assumes "\<forall>d e. m d = Some e \<longrightarrow> date e = d"
  shows "\<forall>d e. add_result m r d = Some e \<longrightarrow> date e = d"
  using assms by (auto simp: add_result_def Let_def zero_trend_def split: option.splits if_splits)

lemma foldl_add_result_date:
  "\<forall>d e. m d = Some e \<longrightarrow> date e = d \<Longrightarrow>
   \<forall>d e. foldl add_result m rs d = Some e \<longrightarrow> date e = d"
proof (induction rs arbitrary: m)
  case Nil
  then show ?case by simp
next
  case (Cons r rs)
  from Cons.IH[OF add_result_date[OF Cons.prems]] show ?case by simp
qed

lemma anomaly_counts_days:
  "(\<lambda>r. fst (fst r)) ` set (anomaly_counts s a b) \<subseteq> (\<lambda>x. day_of (detectedDate x)) ` set (anomalies s)"
  by (auto simp: anomaly_counts_def Let_def group_key_def)

text \<open>
  Claim C9: for a range of \<open>days\<close> days that ends now and lies within the range of
  \<open>datetime\<close>, \<open>get_anomaly_trends\<close> returns \<open>days + 1\<close> entries; their dates are
  the calendar days from the first day of the range to today, each once and in ascending
  order; and the entry of a day on which no anomaly is stored has the four bucket counts
  and the total equal to zero.
\<close>

theorem anomaly_trends_one_entry_per_day:
  assumes "0 \<le> days" and "days * us_per_day \<le> now" and "now + us_per_day \<le> dt_max"
  shows "\<exists>ts. get_anomaly_trends s now days = Inr ts \<and>
      length ts = nat (days + 1) \<and>
      map date ts = [day_of (now - days * us_per_day) .. day_of now] \<and>
      (\<forall>e \<in> set ts. (\<forall>a \<in> set (anomalies s). day_of (detectedDate a) \<noteq> date e) \<longrightarrow>
          duplicates e = 0 \<and> invalidGst e = 0 \<and> missingGst e = 0 \<and> hsnAnomalies e = 0 \<and>
          total e = 0)"
proof -
  define start where "start = now - days * us_per_day"
  define m where "m = foldl add_result Map.empty (anomaly_counts s start now)"
  define ts where "ts = map (entry_of m) [day_of start .. day_of start + int (nat days)]"
  have pos: "0 < us_per_day" by (simp add: us_per_day_def)
  have small: "\<not> 999999999 < \<bar>days\<bar>"
  proof
    assume "999999999 < \<bar>days\<bar>"
    with assms(1) have "999999999 * us_per_day < days * us_per_day" using pos by simp
    with assms(2,3) show False by (simp add: us_per_day_def dt_max_def)
  qed
  have range: "\<not> (start < 0 \<or> dt_max < start)"
    using assms pos by (simp add: start_def) (smt (verit) mult_nonneg_nonneg)
  have e: "now = start + int (nat days) * us_per_day" using assms(1) by (simp add: start_def)
  have run: "get_anomaly_trends s now days = Inr ts"
    unfolding get_anomaly_trends_def Let_def start_def[symmetric] m_def[symmetric]
    using small range fill_dates_steps[OF e assms(3), of m]
    by (simp add: ts_def)
  have dn: "day_of now = day_of start + days"
    using assms(1) unfolding e by (simp add: day_of_def us_per_day_def)
  have dates: "\<forall>d e. m d = Some e \<longrightarrow> date e = d"
    unfolding m_def by (rule foldl_add_result_date) simp
  have date_entry: "date (entry_of m d) = d" for d
    using dates by (auto simp: entry_of_def zero_trend_def split: option.splits)
  have md: "map date ts = [day_of start .. day_of now]"
    using assms(1) by (simp add: ts_def dn date_entry comp_def)
  have len: "length ts = nat (days + 1)" using assms(1) by (simp add: ts_def)
  have zero: "duplicates e = 0 \<and> invalidGst e = 0 \<and> missingGst e = 0 \<and> hsnAnomalies e = 0 \<and>
          total e = 0"
    if "e \<in> set ts" and none: "\<forall>a \<in> set (anomalies s). day_of (detectedDate a) \<noteq> date e" for e
  proof -
    from that(1) obtain d where ed: "e = entry_of m d" by (auto simp: ts_def)
    then have d: "date e = d" by (simp add: date_entry)
    have "d \<notin> dom m"
      unfolding m_def foldl_add_result_dom using anomaly_counts_days[of s start now] none d by auto
    then show ?thesis by (simp add: ed entry_of_def zero_trend_def domIff)
  qed
  from run len md zero show ?thesis unfolding start_def by blast
qed

theorem anomaly_trends_one_entry_per_day_witness:
  "(0::int) \<le> 2 \<and> 2 * us_per_day \<le> 739924 * us_per_day + 3600000000 \<and>
   739924 * us_per_day + 3600000000 + us_per_day \<le> dt_max \<and>
   (\<exists>ts. get_anomaly_trends empty_db (739924 * us_per_day + 3600000000) 2 = Inr ts \<and>
      length ts = 3 \<and> map date ts = [739922, 739923, 739924] \<and>
      map total ts = [0, 0, 0])"
proof -
  let ?now = "739924 * us_per_day + 3600000000"
  have h1: "(0::int) \<le> 2" by simp
  have h2: "2 * us_per_day \<le> ?now" by (simp add: us_per_day_def)
  have h3: "?now + us_per_day \<le> dt_max" by (simp add: us_per_day_def dt_max_def)
  have d1: "day_of (?now - 2 * us_per_day) = 739922" by (simp add: day_of_def us_per_day_def)
  have d2: "day_of ?now = 739924" by (simp add: day_of_def us_per_day_def)
  have up: "[739922 .. 739924 :: int] = [739922, 739923, 739924]"
    by (simp add: upto.simps)
  from anomaly_trends_one_entry_per_day[OF h1 h2 h3, of empty_db] obtain ts where
    r: "get_anomaly_trends empty_db ?now 2 = Inr ts" and
    l: "length ts = nat (2 + 1)" and
    m: "map date ts = [day_of (?now - 2 * us_per_day) .. day_of ?now]" and
    z: "\<forall>e \<in> set ts. (\<forall>a \<in> set (anomalies empty_db). day_of (detectedDate a) \<noteq> date e) \<longrightarrow>
          duplicates e = 0 \<and> invalidGst e = 0 \<and> missingGst e = 0 \<and> hsnAnomalies e = 0 \<and>
          total e = 0"
    by (elim exE conjE)
  from z have "\<forall>e \<in> set ts. total e = 0" by (simp add: empty_db_def)
  then have "map total ts = replicate (length ts) 0"
    by (simp add: map_replicate_const[symmetric] cong: map_cong)
  with l have t: "map total ts = [0, 0, 0]" by (simp add: numeral_3_eq_3)
  from r l m t h1 h2 h3 show ?thesis unfolding d1 d2 up by simp
qed

end
